theory Spec2Isabelle
  imports Main "HOL-Library.Sublist"
begin

section \<open>Strings\<close>

text \<open>
  A Go \<^verbatim>\<open>string\<close> is a sequence of bytes; \<^verbatim>\<open>len\<close> and slicing count bytes. It is
  modelled as \<^typ>\<open>string\<close>, whose characters are bytes.

  \<^verbatim>\<open>strings.TrimSpace\<close> removes leading and then trailing white space as defined by
  Unicode. On the UTF-8 bytes of a string that is: strip, as long as there is one, a prefix
  (then a suffix) that is the encoding of a white-space code point. \<open>whiteSpace\<close> lists these
  encodings: the six ASCII ones, U+0085, U+00A0, U+1680, U+2000 to U+200A, U+2028, U+2029,
  U+202F, U+205F and U+3000.
\<close>

definition whiteSpace :: "string list" where
  "whiteSpace =
     [[CHR 0x09], [CHR 0x0A], [CHR 0x0B], [CHR 0x0C], [CHR 0x0D], [CHR 0x20],
      [CHR 0xC2, CHR 0x85], [CHR 0xC2, CHR 0xA0],
      [CHR 0xE1, CHR 0x9A, CHR 0x80],
      [CHR 0xE2, CHR 0x80, CHR 0x80], [CHR 0xE2, CHR 0x80, CHR 0x81],
      [CHR 0xE2, CHR 0x80, CHR 0x82], [CHR 0xE2, CHR 0x80, CHR 0x83],
      [CHR 0xE2, CHR 0x80, CHR 0x84], [CHR 0xE2, CHR 0x80, CHR 0x85],
      [CHR 0xE2, CHR 0x80, CHR 0x86], [CHR 0xE2, CHR 0x80, CHR 0x87],
      [CHR 0xE2, CHR 0x80, CHR 0x88], [CHR 0xE2, CHR 0x80, CHR 0x89],
      [CHR 0xE2, CHR 0x80, CHR 0x8A],
      [CHR 0xE2, CHR 0x80, CHR 0xA8], [CHR 0xE2, CHR 0x80, CHR 0xA9],
      [CHR 0xE2, CHR 0x80, CHR 0xAF],
      [CHR 0xE2, CHR 0x81, CHR 0x9F],
      [CHR 0xE3, CHR 0x80, CHR 0x80]]"

definition leadingSpace :: "string \<Rightarrow> nat" where
  "leadingSpace s =
     (case find (\<lambda>w. prefix w s) whiteSpace of None \<Rightarrow> 0 | Some w \<Rightarrow> length w)"

definition trailingSpace :: "string \<Rightarrow> nat" where
  "trailingSpace s =
     (case find (\<lambda>w. suffix w s) whiteSpace of None \<Rightarrow> 0 | Some w \<Rightarrow> length w)"

function TrimLeft :: "string \<Rightarrow> string" where
  "TrimLeft s = (if leadingSpace s = 0 then s else TrimLeft (drop (leadingSpace s) s))"
  by pat_completeness auto
termination
proof (relation "measure length")
  fix s assume nz: "leadingSpace s \<noteq> 0"
  then obtain w where "find (\<lambda>w. prefix w s) whiteSpace = Some w" and "w \<noteq> []"
    by (auto simp: leadingSpace_def split: option.splits)
  then have "prefix w s" by (auto simp: find_Some_iff)
  with \<open>w \<noteq> []\<close> have "s \<noteq> []" by auto
  with nz show "(drop (leadingSpace s) s, s) \<in> measure length" by simp
qed simp

function TrimRight :: "string \<Rightarrow> string" where
  "TrimRight s =
     (if trailingSpace s = 0 then s else TrimRight (take (length s - trailingSpace s) s))"
  by pat_completeness auto
termination
proof (relation "measure length")
  fix s assume nz: "trailingSpace s \<noteq> 0"
  then obtain w where "find (\<lambda>w. suffix w s) whiteSpace = Some w" and "w \<noteq> []"
    by (auto simp: trailingSpace_def split: option.splits)
  then have "suffix w s" by (auto simp: find_Some_iff)
  with \<open>w \<noteq> []\<close> have "s \<noteq> []" by auto
  with nz show "(take (length s - trailingSpace s) s, s) \<in> measure length" by simp
qed simp

declare TrimLeft.simps [simp del] TrimRight.simps [simp del]

definition TrimSpace :: "string \<Rightarrow> string" where
  "TrimSpace s = TrimRight (TrimLeft s)"

text \<open>
  \<^verbatim>\<open>strings.ToLower\<close> on the bytes of a string: the ASCII capitals are lowered, every other
  byte is kept. (On code points beyond ASCII Go's function can also change bytes, but none of
  them lowers to an ASCII character, so the test for an ASCII prefix in \<^verbatim>\<open>extractToken\<close>,
  the only use of \<^verbatim>\<open>ToLower\<close> here, reads the same bytes.)
\<close>

definition lowerByte :: "char \<Rightarrow> char" where
  "lowerByte c =
     (case map_of (zip ''ABCDEFGHIJKLMNOPQRSTUVWXYZ'' ''abcdefghijklmnopqrstuvwxyz'') c of
        Some l \<Rightarrow> l
      | None \<Rightarrow> c)"

definition ToLower :: "string \<Rightarrow> string" where
  "ToLower s = map lowerByte s"

text \<open>\<^verbatim>\<open>strconv.Itoa\<close> and \<^verbatim>\<open>strconv.FormatUint(_, 10)\<close>: decimal digits, most significant first.\<close>

fun digits :: "nat \<Rightarrow> string" where
  "digits n =
     (if n < 10 then [''0123456789'' ! n]
      else digits (n div 10) @ [''0123456789'' ! (n mod 10)])"

declare digits.simps [simp del]

definition Itoa :: "int \<Rightarrow> string" where
  "Itoa i = (if i < 0 then CHR ''-'' # digits (nat (- i)) else digits (nat i))"

definition FormatUint :: "nat \<Rightarrow> string" where
  "FormatUint n = digits n"

section \<open>Severity resolution\<close>

text \<open>
  A Go \<^verbatim>\<open>map[int]string\<close> is modelled as an association list with distinct keys. The order of
  the list is the order in which \<^verbatim>\<open>for key := range mapping\<close> visits the keys, which Go leaves
  unspecified: the theorems hold for every order. \<^verbatim>\<open>nil\<close> is the empty list. Keys and
  priorities are only compared, so \<^typ>\<open>int\<close> stands for Go's \<^verbatim>\<open>int\<close>.
\<close>

type_synonym severityMap = "(int \<times> string) list"

text \<open>One iteration of the loop on the pair \<^verbatim>\<open>(bestKey, bestSet)\<close>.\<close>

definition severityStep :: "int \<Rightarrow> int \<Rightarrow> int \<times> bool \<Rightarrow> int \<times> bool" where
  "severityStep priority key best =
     (case best of (bestKey, bestSet) \<Rightarrow>
        if \<not> bestSet then (key, True)
        else if key \<le> priority \<and> bestKey \<le> priority then
          (if key > bestKey then (key, bestSet) else (bestKey, bestSet))
        else if bestKey > priority \<and> key < bestKey then (key, bestSet)
        else (bestKey, bestSet))"

definition severityForPriority :: "severityMap \<Rightarrow> int \<Rightarrow> string" where
  "severityForPriority mapping priority =
     (case map_of mapping priority of
        Some sev \<Rightarrow> sev
      | None \<Rightarrow>
          (case fold (severityStep priority) (map fst mapping) (0, False) of
             (bestKey, bestSet) \<Rightarrow>
               (case map_of mapping bestKey of
                  Some sev \<Rightarrow> sev
                | None \<Rightarrow> ''info'')))"

section \<open>Extras annotations\<close>

text \<open>
  A value of Go's \<^verbatim>\<open>any\<close> inside the extras tree, as \<^verbatim>\<open>encoding/json\<close> produces it. The code
  tells apart strings, \<^verbatim>\<open>map[string]any\<close> and everything else; the payload of a number is never
  read. A \<^verbatim>\<open>map[string]any\<close> that may be \<^verbatim>\<open>nil\<close> is an \<^typ>\<open>'a option\<close> of a map, and its
  \<^verbatim>\<open>len\<close> is zero when it is \<^verbatim>\<open>nil\<close> or has no key.
\<close>

datatype anyval =
    VNil
  | VBool bool
  | VNumber int
  | VString string
  | VList "anyval list"
  | VMap "string \<Rightarrow> anyval option"

definition lenZero :: "(string \<Rightarrow> 'v option) option \<Rightarrow> bool" where
  "lenZero m = (case m of None \<Rightarrow> True | Some f \<Rightarrow> f = Map.empty)"

definition AnnotationGotifyContentType :: string where
  "AnnotationGotifyContentType = ''gotify_content_type''"

definition AnnotationGotifyClickURL :: string where
  "AnnotationGotifyClickURL = ''gotify_click_url''"

definition AnnotationGotifyBigImageURL :: string where
  "AnnotationGotifyBigImageURL = ''gotify_big_image_url''"

definition AnnotationGotifyOnReceiveIntentURL :: string where
  "AnnotationGotifyOnReceiveIntentURL = ''gotify_on_receive_intent_url''"

text \<open>
  The loop of \<^verbatim>\<open>extrasStringAtPath\<close> over the path: \<open>None\<close> is its
  \<^verbatim>\<open>return "", false\<close>, \<open>Some current\<close> the value it holds when the path is used up.
\<close>

fun walkPath :: "anyval \<Rightarrow> string list \<Rightarrow> anyval option" where
  "walkPath current [] = Some current"
| "walkPath current (key # path) =
     (case current of
        VMap currentMap \<Rightarrow>
          (case currentMap key of
             None \<Rightarrow> None
           | Some next \<Rightarrow> walkPath next path)
      | _ \<Rightarrow> None)"

definition extrasStringAtPath ::
  "(string \<Rightarrow> anyval option) option \<Rightarrow> string list \<Rightarrow> string option" where
  "extrasStringAtPath extras path =
     (if lenZero extras \<or> path = [] then None
      else
        (case walkPath (VMap (the extras)) path of
           None \<Rightarrow> None
         | Some current \<Rightarrow>
             (case current of
                VString stringValue \<Rightarrow>
                  (if TrimSpace stringValue = [] then None
                   else Some (TrimSpace stringValue))
              | _ \<Rightarrow> None)))"

text \<open>\<^verbatim>\<open>if v, ok := extrasStringAtPath(...); ok { annotations[key] = v }\<close>\<close>

definition setIfOk :: "string \<Rightarrow> string option \<Rightarrow> (string \<rightharpoonup> string) \<Rightarrow> (string \<rightharpoonup> string)" where
  "setIfOk key found annotations =
     (case found of None \<Rightarrow> annotations | Some v \<Rightarrow> annotations(key \<mapsto> v))"

definition ExtrasAnnotations ::
  "(string \<Rightarrow> anyval option) option \<Rightarrow> (string \<rightharpoonup> string) option" where
  "ExtrasAnnotations extras =
     (if lenZero extras then Some Map.empty
      else
        Some
          (setIfOk AnnotationGotifyOnReceiveIntentURL
             (extrasStringAtPath extras [''android::action'', ''onReceive'', ''intentUrl''])
          (setIfOk AnnotationGotifyBigImageURL
             (extrasStringAtPath extras [''client::notification'', ''bigImageUrl''])
          (setIfOk AnnotationGotifyClickURL
             (extrasStringAtPath extras [''client::notification'', ''click'', ''url''])
          (setIfOk AnnotationGotifyContentType
             (extrasStringAtPath extras [''client::display'', ''contentType''])
             Map.empty)))))"

section \<open>Alert transformation\<close>

record App =
  Name :: string
  ID :: nat
  AlertName :: string
  Labels :: "(string \<rightharpoonup> string) option"
  SeverityFromPriority :: severityMap

record MessageRequest =
  Message :: string
  Title :: string
  Priority :: int
  Extras :: "(string \<Rightarrow> anyval option) option"

record Alert =
  Labels :: "string \<rightharpoonup> string"
  Annotations :: "string \<rightharpoonup> string"
  StartsAt :: int
  EndsAt :: int

definition copyLabels :: "(string \<rightharpoonup> string) option \<Rightarrow> (string \<rightharpoonup> string)" where
  "copyLabels input = (case input of None \<Rightarrow> Map.empty | Some m \<Rightarrow> m)"

definition mergeStringMap ::
  "(string \<rightharpoonup> string) \<Rightarrow> (string \<rightharpoonup> string) option \<Rightarrow> (string \<rightharpoonup> string)" where
  "mergeStringMap dst src = (if lenZero src then dst else dst ++ the src)"

text \<open>
  The truncation marker, byte for byte as the string literal of \<^verbatim>\<open>pickSummary\<close> in
  \<^verbatim>\<open>main.go\<close> has it.
\<close>

definition truncationMarker :: string where
  "truncationMarker =
     [CHR 0xC3, CHR 0xA2, CHR 0xE2, CHR 0x82, CHR 0xAC, CHR 0xC2, CHR 0xA6]"

definition maxLen :: nat where
  "maxLen = 120"

definition pickSummary :: "string \<Rightarrow> string \<Rightarrow> string \<Rightarrow> string" where
  "pickSummary appName title message =
     (if TrimSpace title \<noteq> [] then TrimSpace title
      else if TrimSpace message = [] then appName
      else if length (TrimSpace message) \<le> maxLen then TrimSpace message
      else take maxLen (TrimSpace message) @ truncationMarker)"

text \<open>
  The alert the closure returned by \<^verbatim>\<open>newForwarder\<close> builds before it posts it. The first
  four arguments are the values the closure captures from the configuration, \<open>now\<close> is the
  reading of the clock; times and durations are nanosecond counts.
\<close>

definition buildAlert ::
  "int \<Rightarrow> (string \<rightharpoonup> string) \<Rightarrow> severityMap \<Rightarrow> string \<Rightarrow>
   App \<Rightarrow> MessageRequest \<Rightarrow> nat \<Rightarrow> int \<Rightarrow> Alert" where
  "buildAlert ttl defaultLabels defaultSeverityMap defaultAlertName app msg messageIdentifier now =
     (let severityMap =
            (if length (SeverityFromPriority app) > 0 then SeverityFromPriority app
             else defaultSeverityMap);
          alertName =
            (if TrimSpace (AlertName app) \<noteq> [] then TrimSpace (AlertName app)
             else defaultAlertName);
          severity = severityForPriority severityMap (Priority msg);
          labels = mergeStringMap (copyLabels (Some defaultLabels)) (App.Labels app);
          labels = labels(''alertname'' \<mapsto> alertName);
          labels = labels(''app'' \<mapsto> Name app);
          labels = labels(''severity'' \<mapsto> severity);
          labels = labels(''priority'' \<mapsto> Itoa (Priority msg));
          labels = labels(''gotilert_id'' \<mapsto> FormatUint messageIdentifier);
          annotations =
            [''summary'' \<mapsto> pickSummary (Name app) (Title msg) (Message msg),
             ''description'' \<mapsto> Message msg];
          annotations = mergeStringMap annotations (ExtrasAnnotations (Extras msg))
      in \<lparr>Labels = labels, Annotations = annotations, StartsAt = now, EndsAt = now + ttl\<rparr>)"

section \<open>Token extraction\<close>

text \<open>
  Of the request, \<^verbatim>\<open>extractToken\<close> reads the header (an \<^verbatim>\<open>http.Header\<close>, a map from
  canonical header names to lists of values) and the parsed query of the URL (a
  \<^verbatim>\<open>url.Values\<close>, of the same shape). \<^verbatim>\<open>Get\<close> is the first value of a key, or the empty
  string.
\<close>

record Request =
  Header :: "string \<rightharpoonup> string list"
  Query :: "string \<rightharpoonup> string list"

definition Get :: "(string \<rightharpoonup> string list) \<Rightarrow> string \<Rightarrow> string" where
  "Get values key =
     (case values key of
        None \<Rightarrow> []
      | Some vs \<Rightarrow> (case vs of [] \<Rightarrow> [] | v # _ \<Rightarrow> v))"

definition bearerPrefix :: string where
  "bearerPrefix = ''bearer ''"

definition extractToken :: "Request \<Rightarrow> string" where
  "extractToken request =
     (let headerToken = TrimSpace (Get (Header request) ''X-Gotify-Key'') in
      if headerToken \<noteq> [] then headerToken
      else
        let queryToken = TrimSpace (Get (Query request) ''token'') in
        if queryToken \<noteq> [] then queryToken
        else
          let authHeader = TrimSpace (Get (Header request) ''Authorization'') in
          if authHeader = [] then []
          else
            let lower = ToLower authHeader in
            if \<not> prefix bearerPrefix lower then []
            else TrimSpace (drop (length bearerPrefix) authHeader))"

section \<open>Delivery client\<close>

subsection \<open>Errors\<close>

text \<open>
  A Go error is a tree: a node and the errors it wraps (\<^verbatim>\<open>Unwrap\<close>), which
  \<^verbatim>\<open>errors.Is\<close> and \<^verbatim>\<open>errors.As\<close> search node first, then the wrapped errors from left to
  right. The kinds of node are the ones the classifier tells apart:
  \<^item> \<open>Sentinel\<close>: a value made by \<^verbatim>\<open>errors.New\<close>, named by its variable; \<^verbatim>\<open>context.Canceled\<close>
    and the \<^verbatim>\<open>Err...\<close> variables of the package are such values, and any error of no other
    kind is a sentinel of another name;
  \<^item> \<open>DeadlineExceeded\<close>: \<^verbatim>\<open>context.DeadlineExceeded\<close>, which implements \<^verbatim>\<open>net.Error\<close> with
    \<^verbatim>\<open>Timeout() = true\<close>;
  \<^item> \<open>StatusError\<close>: a \<^verbatim>\<open>*statusError\<close> with its code and body;
  \<^item> \<open>NetError\<close>: any other implementation of \<^verbatim>\<open>net.Error\<close> (\<^verbatim>\<open>*url.Error\<close>,
    \<^verbatim>\<open>*net.DNSError\<close>, ...) with what its \<^verbatim>\<open>Timeout()\<close> returns;
  \<^item> \<open>OpError\<close>: a \<^verbatim>\<open>*net.OpError\<close>, also a \<^verbatim>\<open>net.Error\<close>;
  \<^item> the four certificate errors of \<^verbatim>\<open>crypto/x509\<close> and \<^verbatim>\<open>tls.RecordHeaderError\<close>;
  \<^item> \<open>Errorf\<close>: the wrapper \<^verbatim>\<open>fmt.Errorf\<close> returns for a format with \<^verbatim>\<open>%w\<close> verbs.
\<close>

datatype kind =
    Sentinel string
  | DeadlineExceeded
  | StatusError int string
  | NetError bool
  | OpError bool
  | UnknownAuthorityError
  | HostnameError
  | CertificateInvalidError
  | SystemRootsError
  | RecordHeaderError
  | Errorf

datatype goerror = Err kind "goerror list"

abbreviation Canceled :: kind where
  "Canceled \<equiv> Sentinel ''context.Canceled''"

abbreviation ErrClientNil :: kind where
  "ErrClientNil \<equiv> Sentinel ''ErrClientNil''"

abbreviation ErrUpstreamNon2xx :: kind where
  "ErrUpstreamNon2xx \<equiv> Sentinel ''ErrUpstreamNon2xx''"

abbreviation ErrEncodeRequest :: kind where
  "ErrEncodeRequest \<equiv> Sentinel ''ErrEncodeRequest''"

abbreviation ErrCreateRequest :: kind where
  "ErrCreateRequest \<equiv> Sentinel ''ErrCreateRequest''"

abbreviation ErrDoRequest :: kind where
  "ErrDoRequest \<equiv> Sentinel ''ErrDoRequest''"

abbreviation ErrReadResponseBody :: kind where
  "ErrReadResponseBody \<equiv> Sentinel ''ErrReadResponseBody''"

abbreviation ErrContextDone :: kind where
  "ErrContextDone \<equiv> Sentinel ''ErrContextDone''"

text \<open>A leaf, and \<^verbatim>\<open>fmt.Errorf("%w: %w", a, b)\<close>.\<close>

definition leaf :: "kind \<Rightarrow> goerror" where
  "leaf k = Err k []"

definition wrap2 :: "goerror \<Rightarrow> goerror \<Rightarrow> goerror" where
  "wrap2 a b = Err Errorf [a, b]"

text \<open>
  \<^verbatim>\<open>errors.As\<close>: \<open>firstAs sel err\<close> is what \<open>sel\<close> reads off the first node, in the order of the
  search, at which it is defined. \<^verbatim>\<open>errors.Is\<close> for a comparable target: some node is the
  target.
\<close>

fun firstAs :: "(kind \<Rightarrow> 'a option) \<Rightarrow> goerror \<Rightarrow> 'a option"
  and firstAsList :: "(kind \<Rightarrow> 'a option) \<Rightarrow> goerror list \<Rightarrow> 'a option" where
  "firstAs sel (Err k wrapped) =
     (case sel k of Some x \<Rightarrow> Some x | None \<Rightarrow> firstAsList sel wrapped)"
| "firstAsList sel [] = None"
| "firstAsList sel (e # es) =
     (case firstAs sel e of Some x \<Rightarrow> Some x | None \<Rightarrow> firstAsList sel es)"

definition errorsAs :: "(kind \<Rightarrow> 'a option) \<Rightarrow> goerror \<Rightarrow> bool" where
  "errorsAs sel err = (firstAs sel err \<noteq> None)"

definition errorsIs :: "goerror \<Rightarrow> kind \<Rightarrow> bool" where
  "errorsIs err target = errorsAs (\<lambda>k. if k = target then Some () else None) err"

text \<open>The types that \<^verbatim>\<open>errors.As\<close> is asked for.\<close>

definition asStatusError :: "kind \<Rightarrow> (int \<times> string) option" where
  "asStatusError k = (case k of StatusError code body \<Rightarrow> Some (code, body) | _ \<Rightarrow> None)"

definition asNetError :: "kind \<Rightarrow> bool option" where
  "asNetError k =
     (case k of
        DeadlineExceeded \<Rightarrow> Some True
      | NetError timeout \<Rightarrow> Some timeout
      | OpError timeout \<Rightarrow> Some timeout
      | _ \<Rightarrow> None)"

definition asOpError :: "kind \<Rightarrow> unit option" where
  "asOpError k = (case k of OpError timeout \<Rightarrow> Some () | _ \<Rightarrow> None)"

definition asKind :: "kind \<Rightarrow> kind \<Rightarrow> unit option" where
  "asKind t k = (if k = t then Some () else None)"

subsection \<open>The retry classifier\<close>

definition StatusOK :: int where "StatusOK = 200"
definition StatusMultipleChoices :: int where "StatusMultipleChoices = 300"
definition StatusTooManyRequests :: int where "StatusTooManyRequests = 429"
definition StatusInternalServerError :: int where "StatusInternalServerError = 500"

definition isPermanentTLSError :: "goerror \<Rightarrow> bool" where
  "isPermanentTLSError err =
     (if errorsAs (asKind UnknownAuthorityError) err then True
      else if errorsAs (asKind HostnameError) err then True
      else if errorsAs (asKind CertificateInvalidError) err then True
      else if errorsAs (asKind SystemRootsError) err then True
      else errorsAs (asKind RecordHeaderError) err)"

text \<open>The argument is \<open>None\<close> for Go's \<^verbatim>\<open>nil\<close> error.\<close>

definition shouldRetry :: "goerror option \<Rightarrow> bool" where
  "shouldRetry e =
     (case e of
        None \<Rightarrow> False
      | Some err \<Rightarrow>
          if errorsIs err Canceled \<or> errorsIs err DeadlineExceeded then False
          else if isPermanentTLSError err then False
          else
            (case firstAs asStatusError err of
               Some (code, body) \<Rightarrow>
                 if code = StatusTooManyRequests then True
                 else code \<ge> StatusInternalServerError
             | None \<Rightarrow>
                 if errorsIs err ErrDoRequest then
                   (if firstAs asNetError err = Some True then True
                    else errorsAs asOpError err)
                 else False))"

subsection \<open>Backoff\<close>

text \<open>
  \<^verbatim>\<open>time.Duration\<close> is a signed 64-bit count of nanoseconds. Durations are modelled as
  \<^typ>\<open>int\<close> and the one arithmetic operation of \<^verbatim>\<open>computeBackoff\<close>, the doubling
  \<^verbatim>\<open>backoff *= 2\<close>, wraps around as Go's \<^verbatim>\<open>int64\<close> multiplication does.
\<close>

definition wrap64 :: "int \<Rightarrow> int" where
  "wrap64 x = (x + 2 ^ 63) mod 2 ^ 64 - 2 ^ 63"

definition millisecond :: int where
  "millisecond = 1000000"

definition second :: int where
  "second = 1000 * millisecond"

definition maxErrorBodyBytes :: nat where
  "maxErrorBodyBytes = 64 * 1024"

definition defaultRetryMaxAttempts :: int where
  "defaultRetryMaxAttempts = 3"

definition defaultRetryInitial :: int where
  "defaultRetryInitial = 200 * millisecond"

definition defaultRetryMaxBackoff :: int where
  "defaultRetryMaxBackoff = 1 * second"

text \<open>
  The loop \<^verbatim>\<open>for i := 1; i < attempt; i++\<close> of \<^verbatim>\<open>computeBackoff\<close>, together with the
  statements that follow it. The counter cannot overflow: it is incremented only while it
  is below \<^verbatim>\<open>attempt\<close>.
\<close>

function backoffLoop :: "int \<Rightarrow> int \<Rightarrow> int \<Rightarrow> int \<Rightarrow> int" where
  "backoffLoop i attempt backoff maxBackoff =
     (if i < attempt then
        (let backoff' = wrap64 (backoff * 2) in
         if backoff' \<ge> maxBackoff then maxBackoff
         else backoffLoop (i + 1) attempt backoff' maxBackoff)
      else if backoff > maxBackoff then maxBackoff
      else backoff)"
  by pat_completeness auto
termination
  by (relation "measure (\<lambda>(i, attempt, backoff, maxBackoff). nat (attempt - i))") auto

declare backoffLoop.simps [simp del]

definition computeBackoff :: "int \<Rightarrow> int \<Rightarrow> int \<Rightarrow> int" where
  "computeBackoff attempt initial maxBackoff =
     (if attempt \<le> 1 then initial
      else backoffLoop 1 attempt initial maxBackoff)"

subsection \<open>Posting alerts\<close>

text \<open>
  What one call of \<^verbatim>\<open>postAlertsOnce\<close> meets: \<^verbatim>\<open>json.Marshal\<close> fails, or
  \<^verbatim>\<open>http.NewRequestWithContext\<close> fails, or \<^verbatim>\<open>httpClient.Do\<close> fails, or the upstream
  responds. Of a response the function reads the status code, the status line and the
  body; \<open>ReadErr\<close> is the error of \<^verbatim>\<open>io.ReadAll\<close> on the body, if any.
\<close>

record Response =
  StatusCode :: int
  Status :: string
  Body :: string
  ReadErr :: "goerror option"

datatype exchange =
    EncodeFails goerror
  | CreateFails goerror
  | DoFails goerror
  | Responds Response

definition postAlertsOnce :: "exchange \<Rightarrow> goerror option" where
  "postAlertsOnce x =
     (case x of
        EncodeFails err \<Rightarrow> Some (wrap2 (leaf ErrEncodeRequest) err)
      | CreateFails err \<Rightarrow> Some (wrap2 (leaf ErrCreateRequest) err)
      | DoFails err \<Rightarrow> Some (wrap2 (leaf ErrDoRequest) err)
      | Responds resp \<Rightarrow>
          if StatusCode resp < StatusOK \<or> StatusCode resp \<ge> StatusMultipleChoices then
            (case ReadErr resp of
               Some readErr \<Rightarrow> Some (wrap2 (leaf ErrReadResponseBody) readErr)
             | None \<Rightarrow>
                 (let msg = TrimSpace (take maxErrorBodyBytes (Body resp));
                      msg = (if msg = [] then Status resp else msg)
                  in Some (wrap2 (leaf ErrUpstreamNon2xx)
                             (leaf (StatusError (StatusCode resp) msg)))))
          else None)"

text \<open>
  The caller's context. \<^verbatim>\<open>ctx.Err()\<close> is \<^verbatim>\<open>nil\<close>, \<^verbatim>\<open>context.Canceled\<close> or
  \<^verbatim>\<open>context.DeadlineExceeded\<close>.
\<close>

datatype ctxerr = CtxCanceled | CtxDeadlineExceeded

definition ctxError :: "ctxerr \<Rightarrow> goerror" where
  "ctxError c =
     (case c of CtxCanceled \<Rightarrow> leaf Canceled | CtxDeadlineExceeded \<Rightarrow> leaf DeadlineExceeded)"

text \<open>
  The surroundings of one call of \<^verbatim>\<open>PostAlerts\<close>, by attempt number: what the HTTP exchange of
  the attempt meets, what \<^verbatim>\<open>ctx.Err()\<close> returns right after the attempt, and, for the backoff
  sleep after the attempt, the error of the context if \<^verbatim>\<open>ctx.Done()\<close> wins the \<^verbatim>\<open>select\<close> of
  \<^verbatim>\<open>sleepWithContext\<close> (\<open>None\<close> if the timer does).
\<close>

record World =
  exchangeAt :: "int \<Rightarrow> exchange"
  ctxErrAfter :: "int \<Rightarrow> ctxerr option"
  ctxDoneDuring :: "int \<Rightarrow> ctxerr option"

definition sleepWithContext :: "World \<Rightarrow> int \<Rightarrow> int \<Rightarrow> goerror option" where
  "sleepWithContext w attempt d =
     (case ctxDoneDuring w attempt of
        Some c \<Rightarrow> Some (wrap2 (leaf ErrContextDone) (ctxError c))
      | None \<Rightarrow> None)"

text \<open>
  Of the client, \<^verbatim>\<open>PostAlerts\<close> reads whether the two pointers are set and the three retry
  settings. \<open>New\<close> is the client the constructor returns when it succeeds.
\<close>

record Client =
  baseURL :: "string option"
  httpClient :: "int option"
  retryMaxAttempts :: int
  retryInitial :: int
  retryMaxBackoff :: int

definition New :: "string \<Rightarrow> int \<Rightarrow> Client" where
  "New url timeout =
     \<lparr>baseURL = Some url, httpClient = Some timeout,
      retryMaxAttempts = defaultRetryMaxAttempts,
      retryInitial = defaultRetryInitial,
      retryMaxBackoff = defaultRetryMaxBackoff\<rparr>"

text \<open>
  What a call of \<^verbatim>\<open>PostAlerts\<close> does, in order: \<open>Attempt n\<close> is the call of
  \<^verbatim>\<open>postAlertsOnce\<close> of attempt \<open>n\<close>, \<open>Sleep n d\<close> the backoff sleep of duration \<open>d\<close>
  started after it.
\<close>

datatype event = Attempt int | Sleep int int

text \<open>The loop \<^verbatim>\<open>for attempt := 1; attempt <= attempts; attempt++\<close> and the final return.\<close>

function attemptLoop :: "Client \<Rightarrow> World \<Rightarrow> int \<Rightarrow> int \<Rightarrow> goerror option \<times> event list" where
  "attemptLoop client w attempts attempt =
     (if attempt \<le> attempts then
        (case postAlertsOnce (exchangeAt w attempt) of
           None \<Rightarrow> (None, [Attempt attempt])
         | Some err \<Rightarrow>
             (case ctxErrAfter w attempt of
                Some ctxErr \<Rightarrow>
                  (Some (wrap2 (leaf ErrDoRequest) (ctxError ctxErr)), [Attempt attempt])
              | None \<Rightarrow>
                  if \<not> shouldRetry (Some err) \<or> attempt = attempts then
                    (Some err, [Attempt attempt])
                  else
                    (let backoff =
                           computeBackoff attempt (retryInitial client) (retryMaxBackoff client)
                     in case sleepWithContext w attempt backoff of
                          Some sleepErr \<Rightarrow>
                            (Some (wrap2 (leaf ErrDoRequest) sleepErr),
                             [Attempt attempt, Sleep attempt backoff])
                        | None \<Rightarrow>
                            (case attemptLoop client w attempts (attempt + 1) of
                               (result, events) \<Rightarrow>
                                 (result, Attempt attempt # Sleep attempt backoff # events)))))
      else (Some (leaf ErrDoRequest), []))"
  by pat_completeness auto
termination
  by (relation "measure (\<lambda>(client, w, attempts, attempt). nat (attempts + 1 - attempt))") auto

declare attemptLoop.simps [simp del]

definition PostAlerts :: "Client option \<Rightarrow> World \<Rightarrow> goerror option \<times> event list" where
  "PostAlerts c w =
     (case c of
        None \<Rightarrow> (Some (leaf ErrClientNil), [])
      | Some client \<Rightarrow>
          if httpClient client = None \<or> baseURL client = None then
            (Some (leaf ErrClientNil), [])
          else
            (let attempts = max (retryMaxAttempts client) 1
             in attemptLoop client w attempts 1))"

definition attemptsMade :: "event list \<Rightarrow> nat" where
  "attemptsMade events = length (filter (\<lambda>e. case e of Attempt n \<Rightarrow> True | Sleep n d \<Rightarrow> False) events)"

section \<open>Notions of the specification and test inputs\<close>

text \<open>
  The key the specification's severity rule names for a priority \<open>p\<close> that is not itself a
  key of the map: the largest key that is at most \<open>p\<close> if there is one, else the smallest
  key. It is stated on the set of keys and compared below with what the loop of
  \<^verbatim>\<open>severityForPriority\<close> computes.
\<close>

definition nearestKey :: "int \<Rightarrow> int set \<Rightarrow> int" where
  "nearestKey p S = (if \<exists>k\<in>S. k \<le> p then Max {k \<in> S. k \<le> p} else Min S)"

text \<open>
  The nodes of an error tree, in the order in which \<^verbatim>\<open>errors.Is\<close> and \<^verbatim>\<open>errors.As\<close> visit
  them. The classification of errors is stated on this list.
\<close>

fun kinds :: "goerror \<Rightarrow> kind list" where
  "kinds (Err k wrapped) = k # concat (map kinds wrapped)"

text \<open>The map of \<^verbatim>\<open>severity_test.go\<close>.\<close>

definition testMapping :: severityMap where
  "testMapping = [(0, ''info''), (2, ''warning''), (5, ''critical'')]"

text \<open>
  The upstreams of \<^verbatim>\<open>retry_test.go\<close>, under a context that is never done: one answers
  500 with the body \<^verbatim>\<open>boom\<close> twice and then 200, the other answers 400 with the body
  \<^verbatim>\<open>bad request\<close>.
\<close>

definition upstreamFailsTwice :: World where
  "upstreamFailsTwice =
     \<lparr>exchangeAt = (\<lambda>n. if n \<le> 2
         then Responds \<lparr>StatusCode = 500, Status = ''500 Internal Server Error'',
                Body = ''boom\<newline>'', ReadErr = None\<rparr>
         else Responds \<lparr>StatusCode = 200, Status = ''200 OK'', Body = [], ReadErr = None\<rparr>),
      ctxErrAfter = (\<lambda>n. None),
      ctxDoneDuring = (\<lambda>n. None)\<rparr>"

definition upstreamBadRequest :: World where
  "upstreamBadRequest =
     \<lparr>exchangeAt = (\<lambda>n. Responds \<lparr>StatusCode = 400, Status = ''400 Bad Request'',
                Body = ''bad request\<newline>'', ReadErr = None\<rparr>),
      ctxErrAfter = (\<lambda>n. None),
      ctxDoneDuring = (\<lambda>n. None)\<rparr>"

text \<open>
  Two more surroundings, with an upstream that always answers 503: in the first the caller
  cancels while the first attempt is under way; in the second the caller's deadline passes
  during the first backoff sleep.
\<close>

definition canceledDuringAttempt :: World where
  "canceledDuringAttempt =
     \<lparr>exchangeAt = (\<lambda>n. Responds \<lparr>StatusCode = 503, Status = ''503 Service Unavailable'',
                Body = [], ReadErr = None\<rparr>),
      ctxErrAfter = (\<lambda>n. Some CtxCanceled),
      ctxDoneDuring = (\<lambda>n. Some CtxCanceled)\<rparr>"

definition deadlineDuringSleep :: World where
  "deadlineDuringSleep =
     \<lparr>exchangeAt = (\<lambda>n. Responds \<lparr>StatusCode = 503, Status = ''503 Service Unavailable'',
                Body = [], ReadErr = None\<rparr>),
      ctxErrAfter = (\<lambda>n. if n \<le> 1 then None else Some CtxDeadlineExceeded),
      ctxDoneDuring = (\<lambda>n. Some CtxDeadlineExceeded)\<rparr>"

text \<open>An application and a message whose label maps collide with the computed labels.\<close>

definition spoofingApp :: App where
  "spoofingApp =
     \<lparr>Name = ''backup'', ID = 7, AlertName = ''  BackupFailed '',
      Labels = Some [''app'' \<mapsto> ''spoofed'', ''team'' \<mapsto> ''infra'', ''gotilert_id'' \<mapsto> ''0''],
      SeverityFromPriority = []\<rparr>"

definition spoofingDefaults :: "string \<rightharpoonup> string" where
  "spoofingDefaults = [''severity'' \<mapsto> ''page'', ''alertname'' \<mapsto> ''Other'', ''priority'' \<mapsto> ''99'']"

definition sampleMessage :: MessageRequest where
  "sampleMessage = \<lparr>Message = ''disk full'', Title = [], Priority = 3, Extras = None\<rparr>"

text \<open>
  The characters of a string as the specification counts them for the summary: the code
  points of its UTF-8 text, that is the bytes that are not continuation bytes (bytes of the
  form \<open>10xxxxxx\<close>). It is compared below with the byte length that \<^verbatim>\<open>pickSummary\<close> tests.
  \<open>eAcute\<close> is the two-byte encoding of U+00E9.
\<close>

definition continuationByte :: "char \<Rightarrow> bool" where
  "continuationByte c = (case c of Char b0 b1 b2 b3 b4 b5 b6 b7 \<Rightarrow> b7 \<and> \<not> b6)"

definition runeCount :: "string \<Rightarrow> nat" where
  "runeCount s = length (filter (\<lambda>c. \<not> continuationByte c) s)"

definition eAcute :: string where
  "eAcute = [CHR 0xC3, CHR 0xA9]"

section \<open>Strings: proofs\<close>

lemma TrimSpace_fixed: "leadingSpace s = 0 \<Longrightarrow> trailingSpace s = 0 \<Longrightarrow> TrimSpace s = s"
  by (simp add: TrimSpace_def TrimLeft.simps [of s] TrimRight.simps [of s])

lemma TrimSpace_Nil: "TrimSpace [] = []"
  by (rule TrimSpace_fixed) (simp_all add: leadingSpace_def trailingSpace_def whiteSpace_def)

lemma TrimSpace_x: "TrimSpace ''x'' = ''x''"
  by (rule TrimSpace_fixed)
    (simp_all add: leadingSpace_def trailingSpace_def whiteSpace_def suffix_to_prefix)

lemma TrimSpace_replicate_a: "TrimSpace (replicate (Suc n) CHR ''a'') = replicate (Suc n) CHR ''a''"
proof (rule TrimSpace_fixed)
  show "leadingSpace (replicate (Suc n) CHR ''a'') = 0"
    by (simp add: leadingSpace_def whiteSpace_def)
  have "replicate (Suc n) CHR ''a'' = replicate n CHR ''a'' @ [CHR ''a'']"
    by (simp add: replicate_append_same)
  moreover have "trailingSpace (replicate n CHR ''a'' @ [CHR ''a'']) = 0"
    by (simp add: trailingSpace_def whiteSpace_def suffix_to_prefix)
  ultimately show "trailingSpace (replicate (Suc n) CHR ''a'') = 0"
    by simp
qed

lemma TrimSpace_token:
  "TrimSpace ''HEADER'' = ''HEADER''" "TrimSpace ''QUERY'' = ''QUERY''"
  "TrimSpace ''BEARER'' = ''BEARER''" "TrimSpace ''Bearer BEARER'' = ''Bearer BEARER''"
  by (rule TrimSpace_fixed;
      simp add: leadingSpace_def trailingSpace_def whiteSpace_def suffix_to_prefix)+

section \<open>Severity resolution: proofs\<close>

lemma nearestKey_le_iff:
  assumes "finite S" "S \<noteq> {}"
  shows "nearestKey p S \<le> p \<longleftrightarrow> (\<exists>k\<in>S. k \<le> p)"
proof (cases "\<exists>k\<in>S. k \<le> p")
  case True
  then have ne: "{k \<in> S. k \<le> p} \<noteq> {}" by auto
  have "Max {k \<in> S. k \<le> p} \<in> {k \<in> S. k \<le> p}"
    using assms(1) ne by (intro Max_in) auto
  with True show ?thesis by (simp add: nearestKey_def)
next
  case False
  have "Min S \<in> S" using assms by (rule Min_in)
  with False have "\<not> Min S \<le> p" by auto
  with False show ?thesis by (simp add: nearestKey_def)
qed

lemma nearestKey_in:
  assumes "finite S" "S \<noteq> {}"
  shows "nearestKey p S \<in> S"
proof (cases "\<exists>k\<in>S. k \<le> p")
  case True
  then have ne: "{k \<in> S. k \<le> p} \<noteq> {}" by auto
  have "Max {k \<in> S. k \<le> p} \<in> {k \<in> S. k \<le> p}"
    using assms(1) ne by (intro Max_in) auto
  with True show ?thesis by (simp add: nearestKey_def)
next
  case False
  have "Min S \<in> S" using assms by (rule Min_in)
  with False show ?thesis by (simp add: nearestKey_def)
qed

lemma nearestKey_single: "nearestKey p {k} = k"
proof (cases "k \<le> p")
  case True
  then have "{x \<in> {k}. x \<le> p} = {k}" by auto
  with True show ?thesis by (simp add: nearestKey_def)
next
  case False
  then show ?thesis by (simp add: nearestKey_def)
qed

lemma severityStep_first: "severityStep p k (b, False) = (nearestKey p {k}, True)"
  by (simp add: severityStep_def nearestKey_single)

lemma severityStep_nearest:
  assumes fin: "finite S" and ne: "S \<noteq> {}"
  shows "severityStep p k (nearestKey p S, True) = (nearestKey p (insert k S), True)"
proof -
  let ?a = "nearestKey p S"
  have le: "?a \<le> p \<longleftrightarrow> (\<exists>x\<in>S. x \<le> p)"
    using fin ne by (rule nearestKey_le_iff)
  show ?thesis
  proof (cases "k \<le> p")
    case kle: True
    show ?thesis
    proof (cases "\<exists>x\<in>S. x \<le> p")
      case True
      then have ne': "{x \<in> S. x \<le> p} \<noteq> {}" by auto
      have eq: "{x \<in> insert k S. x \<le> p} = insert k {x \<in> S. x \<le> p}"
        using kle by auto
      have "Max (insert k {x \<in> S. x \<le> p}) = max k (Max {x \<in> S. x \<le> p})"
        using fin ne' by (intro Max_insert) auto
      with True kle eq have "nearestKey p (insert k S) = max k ?a"
        by (simp add: nearestKey_def)
      with True kle le show ?thesis
        by (auto simp: severityStep_def max_def)
    next
      case False
      then have eq: "{x \<in> insert k S. x \<le> p} = {k}"
        using kle by auto
      from kle eq have "nearestKey p (insert k S) = k"
        by (simp add: nearestKey_def)
      with False kle le show ?thesis
        by (auto simp: severityStep_def)
    qed
  next
    case kgt: False
    show ?thesis
    proof (cases "\<exists>x\<in>S. x \<le> p")
      case True
      have eq: "{x \<in> insert k S. x \<le> p} = {x \<in> S. x \<le> p}"
        using kgt by auto
      from True eq have "nearestKey p (insert k S) = ?a"
        by (auto simp: nearestKey_def)
      with True kgt le show ?thesis
        by (auto simp: severityStep_def)
    next
      case False
      have "Min (insert k S) = min k (Min S)"
        using fin ne by (rule Min_insert)
      with False kgt have "nearestKey p (insert k S) = min k ?a"
        by (auto simp: nearestKey_def)
      with False kgt le show ?thesis
        by (auto simp: severityStep_def min_def)
    qed
  qed
qed

lemma fold_severityStep_nearest:
  "finite S \<Longrightarrow> S \<noteq> {} \<Longrightarrow>
   fold (severityStep p) ks (nearestKey p S, True) = (nearestKey p (S \<union> set ks), True)"
proof (induction ks arbitrary: S)
  case Nil
  then show ?case by simp
next
  case (Cons k ks)
  have "fold (severityStep p) (k # ks) (nearestKey p S, True)
        = fold (severityStep p) ks (nearestKey p (insert k S), True)"
    using Cons.prems by (simp add: severityStep_nearest)
  also have "\<dots> = (nearestKey p (insert k S \<union> set ks), True)"
    using Cons.prems by (intro Cons.IH) auto
  finally show ?case by simp
qed

lemma fold_severityStep_start:
  assumes "ks \<noteq> []"
  shows "fold (severityStep p) ks (0, False) = (nearestKey p (set ks), True)"
proof -
  from assms obtain k ks' where ks: "ks = k # ks'" by (cases ks) auto
  have "fold (severityStep p) ks (0, False) = fold (severityStep p) ks' (nearestKey p {k}, True)"
    by (simp add: ks severityStep_first)
  also have "\<dots> = (nearestKey p ({k} \<union> set ks'), True)"
    by (intro fold_severityStep_nearest) auto
  finally show ?thesis by (simp add: ks)
qed

lemma severityForPriority_miss:
  assumes miss: "map_of M p = None" and ne: "M \<noteq> []"
  shows "map_of M (nearestKey p (fst ` set M)) = Some (severityForPriority M p)"
proof -
  let ?b = "nearestKey p (fst ` set M)"
  have f: "fold (severityStep p) (map fst M) (0, False) = (?b, True)"
    using ne fold_severityStep_start [of "map fst M" p] by simp
  have "?b \<in> fst ` set M"
    using ne by (intro nearestKey_in) auto
  then obtain v where v: "map_of M ?b = Some v"
    by (metis domD dom_map_of_conv_image_fst)
  with miss f show ?thesis
    by (simp add: severityForPriority_def)
qed

text \<open>
  Claim C1. For every severity map whose values are canonical and every priority \<open>p\<close>
  (negative ones included), \<^verbatim>\<open>severityForPriority\<close> returns one of \<open>info\<close>, \<open>warning\<close>,
  \<open>critical\<close>; it returns the value bound to \<open>p\<close> when \<open>p\<close> is a key; otherwise, when some key
  is at most \<open>p\<close>, the value at the largest such key; otherwise the value at the smallest key;
  and \<open>info\<close> for the empty map. The map is any association list, so the result does not
  depend on the order in which the loop visits the keys.
\<close>

theorem severityForPriority_resolution:
  assumes canonical: "\<forall>(k, sev) \<in> set M. sev \<in> {''info'', ''warning'', ''critical''}"
  shows "severityForPriority M p \<in> {''info'', ''warning'', ''critical''}
       \<and> (\<forall>sev. map_of M p = Some sev \<longrightarrow> severityForPriority M p = sev)
       \<and> (p \<notin> fst ` set M \<and> (\<exists>k \<in> fst ` set M. k \<le> p) \<longrightarrow>
            map_of M (Max {k \<in> fst ` set M. k \<le> p}) = Some (severityForPriority M p))
       \<and> (M \<noteq> [] \<and> (\<forall>k \<in> fst ` set M. p < k) \<longrightarrow>
            map_of M (Min (fst ` set M)) = Some (severityForPriority M p))
       \<and> (M = [] \<longrightarrow> severityForPriority M p = ''info'')"
proof -
  have in_canon: "sev \<in> {''info'', ''warning'', ''critical''}" if "map_of M k = Some sev" for k sev
    using canonical map_of_SomeD [OF that] by blast
  have exact: "\<forall>sev. map_of M p = Some sev \<longrightarrow> severityForPriority M p = sev"
    by (simp add: severityForPriority_def)
  have e: "M = [] \<longrightarrow> severityForPriority M p = ''info''"
    by (simp add: severityForPriority_def)
  have lower: "p \<notin> fst ` set M \<and> (\<exists>k \<in> fst ` set M. k \<le> p) \<longrightarrow>
           map_of M (Max {k \<in> fst ` set M. k \<le> p}) = Some (severityForPriority M p)"
  proof
    assume a: "p \<notin> fst ` set M \<and> (\<exists>k \<in> fst ` set M. k \<le> p)"
    then have "map_of M p = None" "M \<noteq> []"
      by (auto simp: map_of_eq_None_iff)
    from severityForPriority_miss [OF this] a
    show "map_of M (Max {k \<in> fst ` set M. k \<le> p}) = Some (severityForPriority M p)"
      by (simp add: nearestKey_def)
  qed
  have smallest: "M \<noteq> [] \<and> (\<forall>k \<in> fst ` set M. p < k) \<longrightarrow>
           map_of M (Min (fst ` set M)) = Some (severityForPriority M p)"
  proof
    assume a: "M \<noteq> [] \<and> (\<forall>k \<in> fst ` set M. p < k)"
    then have "map_of M p = None"
      by (auto simp: map_of_eq_None_iff)
    from severityForPriority_miss [OF this] a
    have "map_of M (nearestKey p (fst ` set M)) = Some (severityForPriority M p)" by simp
    moreover from a have "\<not> (\<exists>k \<in> fst ` set M. k \<le> p)" by auto
    ultimately show "map_of M (Min (fst ` set M)) = Some (severityForPriority M p)"
      by (simp add: nearestKey_def)
  qed
  have canon: "severityForPriority M p \<in> {''info'', ''warning'', ''critical''}"
  proof (cases "map_of M p")
    case (Some sev)
    then have "severityForPriority M p = sev" by (simp add: severityForPriority_def)
    with in_canon [OF Some] show ?thesis by simp
  next
    case None
    show ?thesis
    proof (cases "M = []")
      case True
      with e show ?thesis by simp
    next
      case False
      from severityForPriority_miss [OF None False] in_canon show ?thesis by blast
    qed
  qed
  from canon exact lower smallest e show ?thesis by blast
qed

text \<open>
  The theorem at the inputs of \<^verbatim>\<open>severity_test.go\<close>: priority 2 is a key, priority 3 falls
  back to key 2; in the map with keys 5 and 10, priority 1 is below all keys and resolves to
  key 5; and the empty map gives \<open>info\<close>.
\<close>

theorem severityForPriority_resolution_witness:
  "snd ` set testMapping \<subseteq> {''info'', ''warning'', ''critical''}
   \<and> map_of testMapping 2 = Some ''warning''
   \<and> severityForPriority testMapping 2 = ''warning''
   \<and> 3 \<notin> fst ` set testMapping \<and> (\<exists>k \<in> fst ` set testMapping. k \<le> 3)
   \<and> severityForPriority testMapping 3 = ''warning''
   \<and> (1::int) < Min (fst ` set [(5, ''critical''), (10, ''warning'')])
   \<and> severityForPriority [(5, ''critical''), (10, ''warning'')] 1 = ''critical''
   \<and> severityForPriority [] 7 = ''info''"
proof -
  have h1: "\<forall>(k, sev) \<in> set testMapping. sev \<in> {''info'', ''warning'', ''critical''}"
    by (simp add: testMapping_def)
  have h2: "\<forall>(k, sev) \<in> set [(5::int, ''critical''), (10, ''warning'')].
              sev \<in> {''info'', ''warning'', ''critical''}"
    by simp
  have h3: "\<forall>(k, sev) \<in> set ([] :: severityMap). sev \<in> {''info'', ''warning'', ''critical''}"
    by simp
  have m2: "map_of testMapping 2 = Some ''warning''"
    by (simp add: testMapping_def)
  have p3: "3 \<notin> fst ` set testMapping \<and> (\<exists>k \<in> fst ` set testMapping. k \<le> 3)"
    by (simp add: testMapping_def)
  have "{k \<in> fst ` set testMapping. k \<le> 3} = {0, 2}"
    by (auto simp: testMapping_def)
  then have max3: "Max {k \<in> fst ` set testMapping. k \<le> 3} = 2"
    by simp
  have p1: "\<forall>k \<in> fst ` set [(5, ''critical''), (10, ''warning'')]. (1::int) < k"
    by simp
  have min1: "Min (fst ` set [(5::int, ''critical''), (10, ''warning'')]) = 5"
    by simp
  have a: "severityForPriority testMapping 2 = ''warning''"
    using severityForPriority_resolution [OF h1, of 2] m2 by blast
  have "map_of testMapping 2 = Some (severityForPriority testMapping 3)"
    using severityForPriority_resolution [OF h1, of 3] p3 max3 by simp
  with m2 have b: "severityForPriority testMapping 3 = ''warning''"
    by simp
  have "map_of [(5::int, ''critical''), (10, ''warning'')] 5
        = Some (severityForPriority [(5, ''critical''), (10, ''warning'')] 1)"
    using severityForPriority_resolution [OF h2, of 1] p1 min1 by simp
  then have c: "severityForPriority [(5, ''critical''), (10, ''warning'')] 1 = ''critical''"
    by simp
  have d: "severityForPriority [] 7 = ''info''"
    using severityForPriority_resolution [OF h3, of 7] by blast
  have h1': "snd ` set testMapping \<subseteq> {''info'', ''warning'', ''critical''}"
    by (simp add: testMapping_def)
  from min1 have p1': "(1::int) < Min (fst ` set [(5, ''critical''), (10, ''warning'')])"
    by simp
  from h1' m2 a p3 b p1' c d show ?thesis by blast
qed

section \<open>Backoff: proofs\<close>

lemma wrap64_id: "- (2 ^ 63) \<le> x \<Longrightarrow> x < 2 ^ 63 \<Longrightarrow> wrap64 x = x"
  by (simp add: wrap64_def)

lemma backoffLoop_closed:
  "0 < b \<Longrightarrow> b < 2 ^ 62 \<Longrightarrow> 0 < m \<Longrightarrow> m \<le> 2 ^ 62 \<Longrightarrow> j \<le> n \<Longrightarrow>
   backoffLoop j n b m = min (b * 2 ^ nat (n - j)) m"
proof (induction j n b m rule: backoffLoop.induct)
  case (1 i attempt backoff maxBackoff)
  show ?case
  proof (cases "i < attempt")
    case False
    with "1.prems" have "attempt = i" by simp
    then show ?thesis
      by (subst backoffLoop.simps) (simp add: min_def)
  next
    case True
    from "1.prems" have w: "wrap64 (backoff * 2) = backoff * 2"
      by (intro wrap64_id) simp_all
    from True have e: "nat (attempt - i) = Suc (nat (attempt - (i + 1)))"
      by simp
    show ?thesis
    proof (cases "backoff * 2 \<ge> maxBackoff")
      case big: True
      have "backoff * 2 * 1 \<le> backoff * 2 * 2 ^ nat (attempt - (i + 1))"
        using "1.prems"(1) by (intro mult_left_mono) simp_all
      with big have "maxBackoff \<le> backoff * 2 ^ nat (attempt - i)"
        by (simp add: e)
      with True big w show ?thesis
        by (subst backoffLoop.simps) (simp add: min_def)
    next
      case small: False
      with "1.prems" have b: "backoff * 2 < 2 ^ 62" "0 < backoff * 2"
        by simp_all
      have "backoffLoop (i + 1) attempt (backoff * 2) maxBackoff
            = min (backoff * 2 * 2 ^ nat (attempt - (i + 1))) maxBackoff"
        using "1.IH" [OF True refl] small w b "1.prems" True by simp
      with True small w show ?thesis
        by (subst backoffLoop.simps) (simp add: e)
    qed
  qed
qed

lemma backoffLoop_unfold2:
  "backoffLoop 1 2 b m = (if wrap64 (b * 2) \<ge> m then m else if wrap64 (b * 2) > m then m else wrap64 (b * 2))"
  by (subst backoffLoop.simps, subst backoffLoop.simps) (simp add: Let_def)

text \<open>
  Claim C5, as stated, fails at two kinds of input. The first attempt returns the initial
  value unchanged, also when it exceeds the maximum: with an initial value of 2 s and a
  maximum of 1 s, attempt 1 gives 2 s, where \<open>min (i * 2 ^ (n - 1)) m\<close> is 1 s. And the
  doubling is a 64-bit multiplication: with an initial value of \<open>2 ^ 62\<close> ns and the maximum
  \<open>2 ^ 63 - 1\<close> ns, attempt 2 gives the wrapped, negative \<open>- (2 ^ 63)\<close>.
\<close>

theorem computeBackoff_counterexample:
  "computeBackoff 1 (2 * second) (1 * second) = 2 * second
   \<and> computeBackoff 1 (2 * second) (1 * second)
       \<noteq> min (2 * second * 2 ^ nat (1 - 1)) (1 * second)
   \<and> computeBackoff 2 (2 ^ 62) (2 ^ 63 - 1) = - (2 ^ 63)
   \<and> computeBackoff 2 (2 ^ 62) (2 ^ 63 - 1) \<noteq> min (2 ^ 62 * 2 ^ nat (2 - 1)) (2 ^ 63 - 1)"
  by (simp add: computeBackoff_def backoffLoop_unfold2 wrap64_def second_def millisecond_def)

text \<open>
  Claim C5, amended. For every attempt number \<open>n \<ge> 1\<close>, initial value \<open>0 < i < 2 ^ 62\<close> and
  maximum \<open>0 < m \<le> 2 ^ 62\<close> (nanoseconds; the range in which the doubling cannot overflow),
  the backoff is \<open>i\<close> for attempt 1, whether or not \<open>i\<close> exceeds \<open>m\<close>, and for each later
  attempt it is double the backoff of the attempt before, capped at \<open>m\<close>; in closed form it
  is \<open>min (i * 2 ^ (n - 1)) m\<close> for every attempt after the first, and for every attempt
  when \<open>i \<le> m\<close>. With the defaults the attempts 1 to 4 give 200 ms, 400 ms, 800 ms and
  1 s.
\<close>

theorem computeBackoff_closed_form:
  assumes "1 \<le> n" and "0 < i" and "i < 2 ^ 62" and "0 < m" and "m \<le> 2 ^ 62"
  shows "computeBackoff n i m = (if n = 1 then i else min (i * 2 ^ nat (n - 1)) m)
       \<and> computeBackoff (n + 1) i m = min (2 * computeBackoff n i m) m
       \<and> (i \<le> m \<longrightarrow> computeBackoff n i m = min (i * 2 ^ nat (n - 1)) m)
       \<and> computeBackoff 1 defaultRetryInitial defaultRetryMaxBackoff = 200 * millisecond
       \<and> computeBackoff 2 defaultRetryInitial defaultRetryMaxBackoff = 400 * millisecond
       \<and> computeBackoff 3 defaultRetryInitial defaultRetryMaxBackoff = 800 * millisecond
       \<and> computeBackoff 4 defaultRetryInitial defaultRetryMaxBackoff = 1 * second"
proof -
  have gen: "computeBackoff a b c = (if a = 1 then b else min (b * 2 ^ nat (a - 1)) c)"
    if "1 \<le> a" "0 < b" "b < 2 ^ 62" "0 < c" "c \<le> 2 ^ 62" for a b c
    using that by (simp add: computeBackoff_def backoffLoop_closed)
  have d: "0 < defaultRetryInitial" "defaultRetryInitial < 2 ^ 62"
    "0 < defaultRetryMaxBackoff" "defaultRetryMaxBackoff \<le> 2 ^ 62"
    by (simp_all add: defaultRetryInitial_def defaultRetryMaxBackoff_def second_def
        millisecond_def)
  have v: "defaultRetryInitial = 200 * millisecond" "defaultRetryMaxBackoff = 1000 * millisecond"
    "second = 1000 * millisecond"
    by (simp_all add: defaultRetryInitial_def defaultRetryMaxBackoff_def second_def)
  have "computeBackoff 1 defaultRetryInitial defaultRetryMaxBackoff = 200 * millisecond"
    using gen [OF _ d, of 1] by (simp add: v)
  moreover have "computeBackoff 2 defaultRetryInitial defaultRetryMaxBackoff = 400 * millisecond"
    using gen [OF _ d, of 2] by (simp add: v millisecond_def)
  moreover have "computeBackoff 3 defaultRetryInitial defaultRetryMaxBackoff = 800 * millisecond"
    using gen [OF _ d, of 3] by (simp add: v millisecond_def eval_nat_numeral)
  moreover have "computeBackoff 4 defaultRetryInitial defaultRetryMaxBackoff = 1 * second"
    using gen [OF _ d, of 4] by (simp add: v millisecond_def eval_nat_numeral)
  moreover have cf: "computeBackoff n i m = (if n = 1 then i else min (i * 2 ^ nat (n - 1)) m)"
    using assms by (rule gen)
  moreover have "computeBackoff (n + 1) i m = min (2 * computeBackoff n i m) m"
  proof (cases "n = 1")
    case True
    then show ?thesis
      using gen [of 2 i m] assms by (simp add: computeBackoff_def [of 1])
  next
    case False
    with assms have p: "nat n = Suc (nat (n - 1))" by simp
    have pos: "0 < i * 2 ^ nat (n - 1)"
      using assms by simp
    have "computeBackoff (n + 1) i m = min (2 * (i * 2 ^ nat (n - 1))) m"
      using gen [of "n + 1" i m] assms by (simp add: p)
    also have "\<dots> = min (2 * min (i * 2 ^ nat (n - 1)) m) m"
      using pos assms(4) by (simp add: min_def)
    finally show ?thesis
      using cf False by simp
  qed
  moreover have "i \<le> m \<longrightarrow> computeBackoff n i m = min (i * 2 ^ nat (n - 1)) m"
    using gen [OF assms] by (simp add: min_def)
  ultimately show ?thesis by blast
qed

theorem computeBackoff_closed_form_witness:
  "(1::int) \<le> 3 \<and> 0 < defaultRetryInitial \<and> defaultRetryInitial < 2 ^ 62
   \<and> 0 < defaultRetryMaxBackoff \<and> defaultRetryMaxBackoff \<le> 2 ^ 62
   \<and> defaultRetryInitial \<le> defaultRetryMaxBackoff
   \<and> computeBackoff 3 defaultRetryInitial defaultRetryMaxBackoff
       = min (defaultRetryInitial * 2 ^ nat (3 - 1)) defaultRetryMaxBackoff
   \<and> computeBackoff (3 + 1) defaultRetryInitial defaultRetryMaxBackoff
       = min (2 * computeBackoff 3 defaultRetryInitial defaultRetryMaxBackoff)
           defaultRetryMaxBackoff"
proof -
  have h: "(1::int) \<le> 3" "0 < defaultRetryInitial" "defaultRetryInitial < 2 ^ 62"
    "0 < defaultRetryMaxBackoff" "defaultRetryMaxBackoff \<le> 2 ^ 62"
    by (simp_all add: defaultRetryInitial_def defaultRetryMaxBackoff_def second_def
        millisecond_def)
  have le: "defaultRetryInitial \<le> defaultRetryMaxBackoff"
    by (simp add: defaultRetryInitial_def defaultRetryMaxBackoff_def second_def millisecond_def)
  from computeBackoff_closed_form [OF h] le h show ?thesis by blast
qed

section \<open>Summary and token extraction: proofs\<close>

lemma runeCount_eAcutes: "runeCount (concat (replicate n eAcute)) = n"
  by (induction n) (simp_all add: runeCount_def eAcute_def continuationByte_def)

lemma length_eAcutes: "length (concat (replicate n eAcute)) = 2 * n"
  by (induction n) (simp_all add: eAcute_def)

lemma TrimSpace_eAcutes:
  "TrimSpace (concat (replicate (Suc n) eAcute)) = concat (replicate (Suc n) eAcute)"
proof (rule TrimSpace_fixed)
  show "leadingSpace (concat (replicate (Suc n) eAcute)) = 0"
    by (simp add: leadingSpace_def whiteSpace_def eAcute_def)
  have "replicate (Suc n) eAcute = replicate n eAcute @ [eAcute]"
    by (simp add: replicate_append_same)
  then have "concat (replicate (Suc n) eAcute)
               = (concat (replicate n eAcute) @ [CHR 0xC3]) @ [CHR 0xA9]"
    by (simp add: eAcute_def)
  moreover have "trailingSpace ((concat (replicate n eAcute) @ [CHR 0xC3]) @ [CHR 0xA9]) = 0"
    by (simp add: trailingSpace_def whiteSpace_def suffix_to_prefix)
  ultimately show "trailingSpace (concat (replicate (Suc n) eAcute)) = 0"
    by simp
qed

text \<open>
  Claim C7, as stated, fails when characters are not single bytes. \<^verbatim>\<open>pickSummary\<close> tests
  \<^verbatim>\<open>len(trimmedMessage)\<close> and slices \<^verbatim>\<open>trimmedMessage[:maxLen]\<close>, and both count bytes. With an
  empty title and a message of 61 letters U+00E9, the trimmed message has 61 characters,
  which is not longer than 120, but 122 bytes: the summary is its first 120 bytes followed
  by the marker, not the message.
\<close>

theorem pickSummary_counterexample:
  "runeCount (TrimSpace (concat (replicate 61 eAcute))) = 61
   \<and> length (TrimSpace (concat (replicate 61 eAcute))) = 122
   \<and> pickSummary ''app'' [] (concat (replicate 61 eAcute))
       = take 120 (concat (replicate 61 eAcute)) @ truncationMarker
   \<and> pickSummary ''app'' [] (concat (replicate 61 eAcute))
       \<noteq> TrimSpace (concat (replicate 61 eAcute))"
proof -
  have t: "TrimSpace (concat (replicate 61 eAcute)) = concat (replicate 61 eAcute)"
    using TrimSpace_eAcutes [of 60] by simp
  have l: "length (concat (replicate 61 eAcute)) = 122"
    using length_eAcutes [of 61] by simp
  have r: "runeCount (concat (replicate 61 eAcute)) = 61"
    by (rule runeCount_eAcutes)
  have e: "eAcute \<noteq> []"
    by (simp add: eAcute_def)
  have p: "pickSummary ''app'' [] (concat (replicate 61 eAcute))
       = take 120 (concat (replicate 61 eAcute)) @ truncationMarker"
    by (simp add: pickSummary_def TrimSpace_Nil t l e maxLen_def)
  have "length (take 120 (concat (replicate 61 eAcute)) @ truncationMarker) = 127"
    by (simp add: l truncationMarker_def)
  with l have d: "take 120 (concat (replicate 61 eAcute)) @ truncationMarker
                    \<noteq> concat (replicate 61 eAcute)"
    by (metis numeral_eq_iff semiring_norm(88,89,90))
  from r l p d show ?thesis
    by (simp only: t) simp
qed

text \<open>
  Claim C7, amended. For every app name, title and message, the summary is the trimmed
  title when that is not empty; otherwise the trimmed message, cut to its first 120 bytes
  and followed by the truncation marker when it is longer than 120 bytes; otherwise, the
  trimmed message being empty, the app name. In particular an empty title with a message
  of 130 letters \<open>a\<close> gives 120 letters \<open>a\<close> and the marker, and the title \<open>x\<close> gives \<open>x\<close>
  whatever the message.
\<close>

theorem pickSummary_cases:
  "pickSummary appName title message =
     (if TrimSpace title \<noteq> [] then TrimSpace title
      else if TrimSpace message = [] then appName
      else if length (TrimSpace message) > 120 then
        take 120 (TrimSpace message) @ truncationMarker
      else TrimSpace message)
   \<and> pickSummary appName [] (replicate 130 CHR ''a'') = replicate 120 CHR ''a'' @ truncationMarker
   \<and> pickSummary appName ''x'' message = ''x''"
proof -
  have a: "TrimSpace (replicate 130 CHR ''a'') = replicate 130 CHR ''a''"
    using TrimSpace_replicate_a [of 129] by simp
  have "pickSummary appName [] (replicate 130 CHR ''a'')
        = replicate 120 CHR ''a'' @ truncationMarker"
    by (simp add: pickSummary_def TrimSpace_Nil a maxLen_def)
  moreover have "pickSummary appName ''x'' message = ''x''"
    by (simp add: pickSummary_def TrimSpace_x)
  moreover have "pickSummary appName title message =
     (if TrimSpace title \<noteq> [] then TrimSpace title
      else if TrimSpace message = [] then appName
      else if length (TrimSpace message) > 120 then
        take 120 (TrimSpace message) @ truncationMarker
      else TrimSpace message)"
    by (simp add: pickSummary_def maxLen_def)
  ultimately show ?thesis by blast
qed

lemma TrimSpace_padded_a:
  "TrimSpace (CHR '' '' # replicate (Suc n) CHR ''a'' @ ''\<newline>'') = replicate (Suc n) CHR ''a''"
proof -
  have l: "TrimLeft (CHR '' '' # replicate (Suc n) CHR ''a'' @ ''\<newline>'')
           = replicate (Suc n) CHR ''a'' @ ''\<newline>''"
    by (subst TrimLeft.simps, subst TrimLeft.simps)
      (simp add: leadingSpace_def whiteSpace_def)
  have s: "replicate (Suc n) CHR ''a'' = replicate n CHR ''a'' @ [CHR ''a'']"
    by (simp add: replicate_append_same)
  have "trailingSpace (replicate (Suc n) CHR ''a'' @ ''\<newline>'') = 1"
    by (simp add: trailingSpace_def whiteSpace_def suffix_to_prefix)
  moreover have "trailingSpace (replicate n CHR ''a'' @ [CHR ''a'']) = 0"
    by (simp add: trailingSpace_def whiteSpace_def suffix_to_prefix)
  then have "trailingSpace (replicate (Suc n) CHR ''a'') = 0"
    by (simp only: s)
  ultimately have r: "TrimRight (replicate (Suc n) CHR ''a'' @ ''\<newline>'') = replicate (Suc n) CHR ''a''"
    by (subst TrimRight.simps, subst TrimRight.simps) simp
  show ?thesis
    by (simp only: TrimSpace_def l r)
qed

text \<open>The theorem at a message that is trimmed and cut: 125 letters between white space.\<close>

theorem pickSummary_cases_witness:
  "pickSummary ''backup'' '' '' (CHR '' '' # replicate 125 CHR ''a'' @ ''\<newline>'')
     = replicate 120 CHR ''a'' @ truncationMarker"
proof -
  have t: "TrimSpace '' '' = []"
    by code_simp
  have m: "TrimSpace (CHR '' '' # replicate 125 CHR ''a'' @ ''\<newline>'') = replicate 125 CHR ''a''"
    using TrimSpace_padded_a [of 124] by simp
  show ?thesis
    using pickSummary_cases [of "''backup''" "'' ''" "CHR '' '' # replicate 125 CHR ''a'' @ ''\<newline>''"]
    by (simp add: t m)
qed

lemma extractToken_unfold:
  "extractToken r =
     (if TrimSpace (Get (Header r) ''X-Gotify-Key'') \<noteq> [] then
        TrimSpace (Get (Header r) ''X-Gotify-Key'')
      else if TrimSpace (Get (Query r) ''token'') \<noteq> [] then
        TrimSpace (Get (Query r) ''token'')
      else if prefix ''bearer '' (ToLower (TrimSpace (Get (Header r) ''Authorization''))) then
        TrimSpace (drop 7 (TrimSpace (Get (Header r) ''Authorization'')))
      else [])"
  by (simp add: extractToken_def Let_def bearerPrefix_def ToLower_def eval_nat_numeral)

text \<open>
  Claim C8. \<^verbatim>\<open>extractToken\<close> tries the header, then the query parameter, then the bearer
  credential: it returns the trimmed \<^verbatim>\<open>X-Gotify-Key\<close> header when that is not empty;
  otherwise the trimmed \<^verbatim>\<open>token\<close> query parameter when that is not empty; otherwise, when
  the trimmed \<^verbatim>\<open>Authorization\<close> header begins with \<^verbatim>\<open>bearer\<close> and a space in any mix of
  upper and lower case, what follows that prefix, trimmed; otherwise the empty string. So,
  as in the requests of the repository's tests, with the three carrying different tokens
  the header's is returned, without the header the query's, with the bearer alone the
  bearer's, and with none the empty string.
\<close>

theorem extractToken_precedence:
  "extractToken r =
     (if TrimSpace (Get (Header r) ''X-Gotify-Key'') \<noteq> [] then
        TrimSpace (Get (Header r) ''X-Gotify-Key'')
      else if TrimSpace (Get (Query r) ''token'') \<noteq> [] then
        TrimSpace (Get (Query r) ''token'')
      else if prefix ''bearer '' (ToLower (TrimSpace (Get (Header r) ''Authorization''))) then
        TrimSpace (drop 7 (TrimSpace (Get (Header r) ''Authorization'')))
      else [])
   \<and> extractToken
        \<lparr>Header = [''X-Gotify-Key'' \<mapsto> [''HEADER''], ''Authorization'' \<mapsto> [''Bearer BEARER'']],
         Query = [''token'' \<mapsto> [''QUERY'']]\<rparr> = ''HEADER''
   \<and> extractToken
        \<lparr>Header = [''Authorization'' \<mapsto> [''Bearer BEARER'']],
         Query = [''token'' \<mapsto> [''QUERY'']]\<rparr> = ''QUERY''
   \<and> extractToken
        \<lparr>Header = [''Authorization'' \<mapsto> [''Bearer BEARER'']], Query = Map.empty\<rparr> = ''BEARER''
   \<and> extractToken \<lparr>Header = Map.empty, Query = Map.empty\<rparr> = []"
proof -
  have l: "ToLower ''Bearer BEARER'' = ''bearer bearer''"
    by (simp add: ToLower_def lowerByte_def)
  show ?thesis
    by (simp add: extractToken_unfold Get_def TrimSpace_token TrimSpace_Nil l)
qed

text \<open>
  The theorem at a request whose header and query parameter are blank and whose
  \<^verbatim>\<open>Authorization\<close> value has white space around it and the prefix in capitals.
\<close>

theorem extractToken_precedence_witness:
  "extractToken
     \<lparr>Header = [''X-Gotify-Key'' \<mapsto> ['' ''], ''Authorization'' \<mapsto> [''  BEARER   tok  '']],
      Query = [''token'' \<mapsto> [[], ''ignored'']]\<rparr> = ''tok''"
proof -
  have t: "TrimSpace '' '' = []" "TrimSpace [] = []"
    "TrimSpace ''  BEARER   tok  '' = ''BEARER   tok''" "TrimSpace ''  tok'' = ''tok''"
    by code_simp+
  have l: "ToLower ''BEARER   tok'' = ''bearer   tok''"
    by (simp add: ToLower_def lowerByte_def)
  show ?thesis
    using extractToken_precedence
      [of "\<lparr>Header = [''X-Gotify-Key'' \<mapsto> ['' ''], ''Authorization'' \<mapsto> [''  BEARER   tok  '']],
            Query = [''token'' \<mapsto> [[], ''ignored'']]\<rparr>"]
    by (simp add: Get_def t l)
qed

section \<open>Extras annotations: proofs\<close>

lemma extrasStringAtPath2:
  "extrasStringAtPath extras [a, b] = Some v \<longleftrightarrow>
     v \<noteq> [] \<and> (\<exists>top inner raw. extras = Some top \<and> top a = Some (VMap inner)
        \<and> inner b = Some (VString raw) \<and> v = TrimSpace raw)"
  by (cases extras)
    (auto simp: extrasStringAtPath_def lenZero_def split: option.splits anyval.splits)

lemma extrasStringAtPath3:
  "extrasStringAtPath extras [a, b, c] = Some v \<longleftrightarrow>
     v \<noteq> [] \<and> (\<exists>top mid inner raw. extras = Some top \<and> top a = Some (VMap mid)
        \<and> mid b = Some (VMap inner) \<and> inner c = Some (VString raw) \<and> v = TrimSpace raw)"
  by (cases extras)
    (auto simp: extrasStringAtPath_def lenZero_def split: option.splits anyval.splits)

lemma setIfOk_apply:
  "setIfOk key found m k = (if k = key \<and> found \<noteq> None then found else m k)"
  by (cases found) (simp_all add: setIfOk_def)

lemma extrasStringAtPath_lenZero: "lenZero extras \<Longrightarrow> extrasStringAtPath extras path = None"
  by (simp add: extrasStringAtPath_def)

text \<open>
  Claim C10. For every extras tree, \<^verbatim>\<open>nil\<close> included, \<^verbatim>\<open>ExtrasAnnotations\<close> returns a map
  that is not \<^verbatim>\<open>nil\<close>, whose keys are among the four annotation keys, and which binds a key
  to \<open>v\<close> exactly when \<open>v\<close> is not empty and is the trimmed string found at the key's path in
  the tree. So a path whose last value is not a string or is empty after trimming, or on
  which a node is missing or not a map, gives no entry.
\<close>

theorem ExtrasAnnotations_fixed_paths:
  "\<exists>m. ExtrasAnnotations extras = Some m
     \<and> dom m \<subseteq> {AnnotationGotifyContentType, AnnotationGotifyClickURL,
                 AnnotationGotifyBigImageURL, AnnotationGotifyOnReceiveIntentURL}
     \<and> (\<forall>v. m AnnotationGotifyContentType = Some v \<longleftrightarrow>
           v \<noteq> [] \<and> (\<exists>top display raw. extras = Some top
             \<and> top ''client::display'' = Some (VMap display)
             \<and> display ''contentType'' = Some (VString raw) \<and> v = TrimSpace raw))
     \<and> (\<forall>v. m AnnotationGotifyClickURL = Some v \<longleftrightarrow>
           v \<noteq> [] \<and> (\<exists>top notification click raw. extras = Some top
             \<and> top ''client::notification'' = Some (VMap notification)
             \<and> notification ''click'' = Some (VMap click)
             \<and> click ''url'' = Some (VString raw) \<and> v = TrimSpace raw))
     \<and> (\<forall>v. m AnnotationGotifyBigImageURL = Some v \<longleftrightarrow>
           v \<noteq> [] \<and> (\<exists>top notification raw. extras = Some top
             \<and> top ''client::notification'' = Some (VMap notification)
             \<and> notification ''bigImageUrl'' = Some (VString raw) \<and> v = TrimSpace raw))
     \<and> (\<forall>v. m AnnotationGotifyOnReceiveIntentURL = Some v \<longleftrightarrow>
           v \<noteq> [] \<and> (\<exists>top action onReceive raw. extras = Some top
             \<and> top ''android::action'' = Some (VMap action)
             \<and> action ''onReceive'' = Some (VMap onReceive)
             \<and> onReceive ''intentUrl'' = Some (VString raw) \<and> v = TrimSpace raw))"
proof -
  define m where "m =
     setIfOk AnnotationGotifyOnReceiveIntentURL
       (extrasStringAtPath extras [''android::action'', ''onReceive'', ''intentUrl''])
     (setIfOk AnnotationGotifyBigImageURL
       (extrasStringAtPath extras [''client::notification'', ''bigImageUrl''])
     (setIfOk AnnotationGotifyClickURL
       (extrasStringAtPath extras [''client::notification'', ''click'', ''url''])
     (setIfOk AnnotationGotifyContentType
       (extrasStringAtPath extras [''client::display'', ''contentType''])
       Map.empty)))"
  have result: "ExtrasAnnotations extras = Some m"
  proof (cases "lenZero extras")
    case True
    then show ?thesis
      by (simp add: ExtrasAnnotations_def m_def extrasStringAtPath_lenZero setIfOk_def)
  next
    case False
    then show ?thesis
      by (simp add: ExtrasAnnotations_def m_def)
  qed
  have app:
    "m AnnotationGotifyContentType
       = extrasStringAtPath extras [''client::display'', ''contentType'']"
    "m AnnotationGotifyClickURL
       = extrasStringAtPath extras [''client::notification'', ''click'', ''url'']"
    "m AnnotationGotifyBigImageURL
       = extrasStringAtPath extras [''client::notification'', ''bigImageUrl'']"
    "m AnnotationGotifyOnReceiveIntentURL
       = extrasStringAtPath extras [''android::action'', ''onReceive'', ''intentUrl'']"
    by (simp_all add: m_def setIfOk_apply AnnotationGotifyContentType_def
        AnnotationGotifyClickURL_def AnnotationGotifyBigImageURL_def
        AnnotationGotifyOnReceiveIntentURL_def)
  have keys: "dom m \<subseteq> {AnnotationGotifyContentType, AnnotationGotifyClickURL,
                 AnnotationGotifyBigImageURL, AnnotationGotifyOnReceiveIntentURL}"
    by (auto simp: m_def setIfOk_apply split: if_splits)
  show ?thesis
    by (intro exI [of _ m] conjI result keys allI)
      (simp_all only: app extrasStringAtPath2 extrasStringAtPath3)
qed

text \<open>
  The theorem at a tree with a content type between white space, a click node that is a
  string where a map is expected, a blank image URL and no \<^verbatim>\<open>android::action\<close>: the one
  entry is the trimmed content type.
\<close>

theorem ExtrasAnnotations_fixed_paths_witness:
  "\<exists>m. ExtrasAnnotations
         (Some [''client::display'' \<mapsto> VMap [''contentType'' \<mapsto> VString '' text/markdown '',
                                                ''other'' \<mapsto> VNumber 123],
                ''client::notification'' \<mapsto> VMap [''click'' \<mapsto> VString ''https://example.local'',
                                                     ''bigImageUrl'' \<mapsto> VString ''  '']])
       = Some m
     \<and> m AnnotationGotifyContentType = Some ''text/markdown''
     \<and> m AnnotationGotifyClickURL = None
     \<and> m AnnotationGotifyBigImageURL = None
     \<and> m AnnotationGotifyOnReceiveIntentURL = None"
proof -
  let ?extras = "Some [''client::display'' \<mapsto> VMap [''contentType'' \<mapsto> VString '' text/markdown '',
                                            ''other'' \<mapsto> VNumber 123],
            ''client::notification'' \<mapsto> VMap [''click'' \<mapsto> VString ''https://example.local'',
                                                 ''bigImageUrl'' \<mapsto> VString ''  '']]"
  have t: "TrimSpace '' text/markdown '' = ''text/markdown''"
    by code_simp
  have b: "TrimSpace ''  '' = []"
    by code_simp
  have none: "x = None" if "\<forall>v. x = Some v \<longleftrightarrow> False" for x :: "string option"
    using that by (cases x) simp_all
  from ExtrasAnnotations_fixed_paths [of ?extras]
  show ?thesis
  proof (elim exE conjE)
    fix m
    assume m: "ExtrasAnnotations ?extras = Some m"
      and ct: "\<forall>v. m AnnotationGotifyContentType = Some v \<longleftrightarrow>
           v \<noteq> [] \<and> (\<exists>top display raw. ?extras = Some top
             \<and> top ''client::display'' = Some (VMap display)
             \<and> display ''contentType'' = Some (VString raw) \<and> v = TrimSpace raw)"
      and cu: "\<forall>v. m AnnotationGotifyClickURL = Some v \<longleftrightarrow>
           v \<noteq> [] \<and> (\<exists>top notification click raw. ?extras = Some top
             \<and> top ''client::notification'' = Some (VMap notification)
             \<and> notification ''click'' = Some (VMap click)
             \<and> click ''url'' = Some (VString raw) \<and> v = TrimSpace raw)"
      and bi: "\<forall>v. m AnnotationGotifyBigImageURL = Some v \<longleftrightarrow>
           v \<noteq> [] \<and> (\<exists>top notification raw. ?extras = Some top
             \<and> top ''client::notification'' = Some (VMap notification)
             \<and> notification ''bigImageUrl'' = Some (VString raw) \<and> v = TrimSpace raw)"
      and oi: "\<forall>v. m AnnotationGotifyOnReceiveIntentURL = Some v \<longleftrightarrow>
           v \<noteq> [] \<and> (\<exists>top action onReceive raw. ?extras = Some top
             \<and> top ''android::action'' = Some (VMap action)
             \<and> action ''onReceive'' = Some (VMap onReceive)
             \<and> onReceive ''intentUrl'' = Some (VString raw) \<and> v = TrimSpace raw)"
    have 1: "m AnnotationGotifyContentType = Some ''text/markdown''"
      using ct [rule_format, of "''text/markdown''"] by (simp add: t)
    have 2: "m AnnotationGotifyClickURL = None"
      by (rule none) (simp add: cu)
    have 3: "m AnnotationGotifyBigImageURL = None"
      by (rule none) (auto simp: bi b)
    have 4: "m AnnotationGotifyOnReceiveIntentURL = None"
      by (rule none) (simp add: oi)
    from m 1 2 3 4 show ?thesis by blast
  qed
qed

section \<open>Alert labels: proofs\<close>

text \<open>
  Claim C2. For every forwarded message, every map of default labels and every map of
  per-app labels, the labels of the alert that is built bind \<^verbatim>\<open>alertname\<close>, \<^verbatim>\<open>app\<close>,
  \<^verbatim>\<open>severity\<close>, \<^verbatim>\<open>priority\<close> and \<^verbatim>\<open>gotilert_id\<close>, each to its computed value: the trimmed
  alert name of the app if that is not empty and else the default alert name, the name of
  the app, the severity resolved from the app's severity map if that has an entry and else
  from the default one, the priority in decimal, and the forwarding id in decimal. The two
  label maps are arbitrary, so whatever they bind to these keys is overridden.
\<close>

theorem buildAlert_computed_labels:
  "Alert.Labels (buildAlert ttl defaultLabels defaultSeverityMap defaultAlertName
                  app msg messageIdentifier now) ''alertname''
     = Some (if TrimSpace (AlertName app) \<noteq> [] then TrimSpace (AlertName app)
             else defaultAlertName)
   \<and> Alert.Labels (buildAlert ttl defaultLabels defaultSeverityMap defaultAlertName
                  app msg messageIdentifier now) ''app''
     = Some (Name app)
   \<and> Alert.Labels (buildAlert ttl defaultLabels defaultSeverityMap defaultAlertName
                  app msg messageIdentifier now) ''severity''
     = Some (severityForPriority
              (if SeverityFromPriority app \<noteq> [] then SeverityFromPriority app
               else defaultSeverityMap)
              (Priority msg))
   \<and> Alert.Labels (buildAlert ttl defaultLabels defaultSeverityMap defaultAlertName
                  app msg messageIdentifier now) ''priority''
     = Some (Itoa (Priority msg))
   \<and> Alert.Labels (buildAlert ttl defaultLabels defaultSeverityMap defaultAlertName
                  app msg messageIdentifier now) ''gotilert_id''
     = Some (FormatUint messageIdentifier)"
  by (simp add: buildAlert_def Let_def)

text \<open>
  The theorem at an app and defaults that bind all five computed keys to other values:
  none of these survives, while the label \<^verbatim>\<open>team\<close> of the app does.
\<close>

theorem buildAlert_computed_labels_witness:
  "Alert.Labels (buildAlert (60 * second) spoofingDefaults testMapping ''GotilertNotification''
                  spoofingApp sampleMessage 42 0) ''alertname'' = Some ''BackupFailed''
   \<and> Alert.Labels (buildAlert (60 * second) spoofingDefaults testMapping ''GotilertNotification''
                  spoofingApp sampleMessage 42 0) ''app'' = Some ''backup''
   \<and> Alert.Labels (buildAlert (60 * second) spoofingDefaults testMapping ''GotilertNotification''
                  spoofingApp sampleMessage 42 0) ''severity'' = Some ''warning''
   \<and> Alert.Labels (buildAlert (60 * second) spoofingDefaults testMapping ''GotilertNotification''
                  spoofingApp sampleMessage 42 0) ''priority'' = Some ''3''
   \<and> Alert.Labels (buildAlert (60 * second) spoofingDefaults testMapping ''GotilertNotification''
                  spoofingApp sampleMessage 42 0) ''gotilert_id'' = Some ''42''
   \<and> Alert.Labels (buildAlert (60 * second) spoofingDefaults testMapping ''GotilertNotification''
                  spoofingApp sampleMessage 42 0) ''team'' = Some ''infra''"
proof -
  have n: "TrimSpace (AlertName spoofingApp) = ''BackupFailed''"
    unfolding spoofingApp_def by simp code_simp
  have s: "severityForPriority testMapping 3 = ''warning''"
    by (simp add: severityForPriority_def severityStep_def testMapping_def)
  have d: "Itoa 3 = ''3''" "FormatUint 42 = ''42''"
    by (simp_all add: Itoa_def FormatUint_def digits.simps)
  have t: "Alert.Labels (buildAlert (60 * second) spoofingDefaults testMapping
             ''GotilertNotification'' spoofingApp sampleMessage 42 0) ''team'' = Some ''infra''"
    by (simp add: buildAlert_def Let_def mergeStringMap_def lenZero_def spoofingApp_def)
  show ?thesis
    using buildAlert_computed_labels [of "60 * second" spoofingDefaults testMapping
        "''GotilertNotification''" spoofingApp sampleMessage 42 0] t
    by (simp add: n s d) (simp add: spoofingApp_def sampleMessage_def s d)
qed

section \<open>The retry classifier: proofs\<close>

lemma firstAs_kinds:
  "firstAs sel err = (case List.map_filter sel (kinds err) of [] \<Rightarrow> None | x # _ \<Rightarrow> Some x)"
  "firstAsList sel errs
     = (case List.map_filter sel (concat (map kinds errs)) of [] \<Rightarrow> None | x # _ \<Rightarrow> Some x)"
proof (induction sel err and sel errs rule: firstAs_firstAsList.induct)
  case (1 sel k wrapped)
  then show ?case
    by (cases "sel k") (simp_all add: List.map_filter_simps)
next
  case (2 sel)
  then show ?case by (simp add: List.map_filter_simps)
next
  case (3 sel e es)
  then show ?case
    by (cases "firstAs sel e")
      (auto simp: List.map_filter_def split: list.splits)
qed

lemma map_filter_Nil_iff: "List.map_filter sel ks = [] \<longleftrightarrow> (\<forall>k \<in> set ks. sel k = None)"
  by (induction ks) (auto simp: List.map_filter_simps split: option.splits)

lemma errorsAs_kinds: "errorsAs sel err \<longleftrightarrow> (\<exists>k \<in> set (kinds err). sel k \<noteq> None)"
proof -
  have "errorsAs sel err \<longleftrightarrow> List.map_filter sel (kinds err) \<noteq> []"
    by (simp add: errorsAs_def firstAs_kinds(1) split: list.splits)
  then show ?thesis
    by (simp add: map_filter_Nil_iff)
qed

lemma errorsIs_kinds: "errorsIs err target \<longleftrightarrow> target \<in> set (kinds err)"
  by (auto simp: errorsIs_def errorsAs_kinds)

lemma errorsAs_asKind: "errorsAs (asKind t) err \<longleftrightarrow> t \<in> set (kinds err)"
  by (auto simp: errorsAs_kinds asKind_def)

lemma isPermanentTLSError_kinds:
  "isPermanentTLSError err \<longleftrightarrow>
     set (kinds err) \<inter> {UnknownAuthorityError, HostnameError, CertificateInvalidError,
                         SystemRootsError, RecordHeaderError} \<noteq> {}"
  by (auto simp: isPermanentTLSError_def errorsAs_asKind)


lemma kinds_wrap2_leaf: "kinds (wrap2 (leaf a) (leaf b)) = [Errorf, a, b]"
  by (simp add: wrap2_def leaf_def)

lemma kinds_wrap2_wrap2_leaf: "kinds (wrap2 (leaf a) (wrap2 (leaf b) (leaf c))) = [Errorf, a, Errorf, b, c]"
  by (simp add: wrap2_def leaf_def)

lemma shouldRetry_status:
  "shouldRetry (Some (wrap2 (leaf ErrUpstreamNon2xx) (leaf (StatusError code body))))
     \<longleftrightarrow> code = 429 \<or> 500 \<le> code"
  by (simp add: shouldRetry_def errorsIs_kinds isPermanentTLSError_kinds firstAs_kinds(1)
      kinds_wrap2_leaf asStatusError_def StatusTooManyRequests_def
      StatusInternalServerError_def)

lemma postAlertsOnce_non2xx:
  "StatusCode r < 200 \<or> 300 \<le> StatusCode r \<Longrightarrow> ReadErr r = None \<Longrightarrow>
   postAlertsOnce (Responds r)
     = Some (wrap2 (leaf ErrUpstreamNon2xx)
         (leaf (StatusError (StatusCode r)
            (if TrimSpace (take maxErrorBodyBytes (Body r)) = [] then Status r
             else TrimSpace (take maxErrorBodyBytes (Body r))))))"
  by (auto simp: postAlertsOnce_def StatusOK_def StatusMultipleChoices_def Let_def)

lemma postAlertsOnce_2xx:
  "200 \<le> StatusCode r \<Longrightarrow> StatusCode r < 300 \<Longrightarrow> postAlertsOnce (Responds r) = None"
  by (simp add: postAlertsOnce_def StatusOK_def StatusMultipleChoices_def)




section \<open>Posting alerts: proofs\<close>

lemma attemptLoop_success:
  "attempt \<le> attempts \<Longrightarrow> postAlertsOnce (exchangeAt w attempt) = None \<Longrightarrow>
   attemptLoop client w attempts attempt = (None, [Attempt attempt])"
  by (subst attemptLoop.simps) simp

lemma attemptLoop_ctxErr:
  "attempt \<le> attempts \<Longrightarrow> postAlertsOnce (exchangeAt w attempt) = Some err \<Longrightarrow>
   ctxErrAfter w attempt = Some c \<Longrightarrow>
   attemptLoop client w attempts attempt
     = (Some (wrap2 (leaf ErrDoRequest) (ctxError c)), [Attempt attempt])"
  by (subst attemptLoop.simps) simp

lemma attemptLoop_final:
  "attempt \<le> attempts \<Longrightarrow> postAlertsOnce (exchangeAt w attempt) = Some err \<Longrightarrow>
   ctxErrAfter w attempt = None \<Longrightarrow> \<not> shouldRetry (Some err) \<or> attempt = attempts \<Longrightarrow>
   attemptLoop client w attempts attempt = (Some err, [Attempt attempt])"
  by (subst attemptLoop.simps) auto

lemma attemptLoop_sleepErr:
  "attempt < attempts \<Longrightarrow> postAlertsOnce (exchangeAt w attempt) = Some err \<Longrightarrow>
   ctxErrAfter w attempt = None \<Longrightarrow> shouldRetry (Some err) \<Longrightarrow>
   ctxDoneDuring w attempt = Some c \<Longrightarrow>
   attemptLoop client w attempts attempt
     = (Some (wrap2 (leaf ErrDoRequest) (wrap2 (leaf ErrContextDone) (ctxError c))),
        [Attempt attempt,
         Sleep attempt (computeBackoff attempt (retryInitial client) (retryMaxBackoff client))])"
  by (subst attemptLoop.simps) (simp add: sleepWithContext_def Let_def)

lemma attemptLoop_retry:
  "attempt < attempts \<Longrightarrow> postAlertsOnce (exchangeAt w attempt) = Some err \<Longrightarrow>
   ctxErrAfter w attempt = None \<Longrightarrow> shouldRetry (Some err) \<Longrightarrow>
   ctxDoneDuring w attempt = None \<Longrightarrow>
   attemptLoop client w attempts attempt
     = (fst (attemptLoop client w attempts (attempt + 1)),
        Attempt attempt
        # Sleep attempt (computeBackoff attempt (retryInitial client) (retryMaxBackoff client))
        # snd (attemptLoop client w attempts (attempt + 1)))"
  by (subst attemptLoop.simps) (simp add: sleepWithContext_def Let_def split: prod.splits)

lemma backoff_defaults:
  "computeBackoff 1 defaultRetryInitial defaultRetryMaxBackoff = 200 * millisecond"
  "computeBackoff 2 defaultRetryInitial defaultRetryMaxBackoff = 400 * millisecond"
proof -
  show "computeBackoff 1 defaultRetryInitial defaultRetryMaxBackoff = 200 * millisecond"
    by (simp add: computeBackoff_def defaultRetryInitial_def)
  show "computeBackoff 2 defaultRetryInitial defaultRetryMaxBackoff = 400 * millisecond"
    by (simp add: computeBackoff_def backoffLoop.simps [of 1 2] backoffLoop.simps [of 2 2]
        defaultRetryInitial_def defaultRetryMaxBackoff_def second_def millisecond_def wrap64_def)
qed

lemma PostAlerts_New: "PostAlerts (Some (New url timeout)) w = attemptLoop (New url timeout) w 3 1"
  by (simp add: PostAlerts_def New_def defaultRetryMaxAttempts_def)

text \<open>
  Claim C3. With the client that \<^verbatim>\<open>New\<close> returns (a retry budget of 3 attempts) and a
  context that is never done: when the upstream responds 500 to the first and to the second
  attempt and 200 to the third, each response read to its end, \<^verbatim>\<open>PostAlerts\<close> makes exactly
  three attempts, sleeping 200 ms and 400 ms between them, and returns \<^verbatim>\<open>nil\<close>; when the
  upstream responds 400 to the first attempt, \<^verbatim>\<open>PostAlerts\<close> makes exactly one attempt and
  returns that attempt's error, which is not \<^verbatim>\<open>nil\<close> and not retryable.
\<close>

theorem PostAlerts_retry_budget:
  assumes uncancelled: "\<forall>n. ctxErrAfter w n = None \<and> ctxDoneDuring w n = None"
  shows "(exchangeAt w 1 = Responds ra \<and> StatusCode ra = 500 \<and> ReadErr ra = None
          \<and> exchangeAt w 2 = Responds rb \<and> StatusCode rb = 500 \<and> ReadErr rb = None
          \<and> exchangeAt w 3 = Responds rc \<and> StatusCode rc = 200
          \<longrightarrow> PostAlerts (Some (New url timeout)) w
                = (None, [Attempt 1, Sleep 1 (200 * millisecond),
                          Attempt 2, Sleep 2 (400 * millisecond), Attempt 3])
              \<and> attemptsMade (snd (PostAlerts (Some (New url timeout)) w)) = 3)
       \<and> (exchangeAt w 1 = Responds rd \<and> StatusCode rd = 400 \<and> ReadErr rd = None
          \<longrightarrow> PostAlerts (Some (New url timeout)) w
                = (postAlertsOnce (Responds rd), [Attempt 1])
              \<and> attemptsMade (snd (PostAlerts (Some (New url timeout)) w)) = 1
              \<and> postAlertsOnce (Responds rd) \<noteq> None
              \<and> \<not> shouldRetry (postAlertsOnce (Responds rd)))"
proof -
  let ?c = "New url timeout"
  note P = PostAlerts_New [of url timeout w]
  have ri: "retryInitial ?c = defaultRetryInitial" "retryMaxBackoff ?c = defaultRetryMaxBackoff"
    by (simp_all add: New_def)
  from uncancelled have u: "ctxErrAfter w n = None" "ctxDoneDuring w n = None" for n
    by simp_all
  have first: "PostAlerts (Some ?c) w
                = (None, [Attempt 1, Sleep 1 (200 * millisecond),
                          Attempt 2, Sleep 2 (400 * millisecond), Attempt 3])"
    if a: "exchangeAt w 1 = Responds ra \<and> StatusCode ra = 500 \<and> ReadErr ra = None
          \<and> exchangeAt w 2 = Responds rb \<and> StatusCode rb = 500 \<and> ReadErr rb = None
          \<and> exchangeAt w 3 = Responds rc \<and> StatusCode rc = 200"
  proof -
    obtain e1 where e1: "postAlertsOnce (exchangeAt w 1) = Some e1" "shouldRetry (Some e1)"
      using a by (simp add: postAlertsOnce_non2xx shouldRetry_status)
    obtain e2 where e2: "postAlertsOnce (exchangeAt w 2) = Some e2" "shouldRetry (Some e2)"
      using a by (simp add: postAlertsOnce_non2xx shouldRetry_status)
    have e3: "postAlertsOnce (exchangeAt w 3) = None"
      using a by (simp add: postAlertsOnce_2xx)
    have l3: "attemptLoop ?c w 3 3 = (None, [Attempt 3])"
      using e3 by (simp add: attemptLoop_success)
    have l2: "attemptLoop ?c w 3 2 = (None, [Attempt 2, Sleep 2 (400 * millisecond), Attempt 3])"
      using attemptLoop_retry [of 2 3 w e2 ?c] e2 u l3 by (simp add: ri backoff_defaults)
    have "attemptLoop ?c w 3 1
       = (None, [Attempt 1, Sleep 1 (200 * millisecond),
                 Attempt 2, Sleep 2 (400 * millisecond), Attempt 3])"
      using attemptLoop_retry [of 1 3 w e1 ?c] e1 u l2 by (simp add: ri backoff_defaults)
    with P show ?thesis by simp
  qed
  have second: "PostAlerts (Some ?c) w = (postAlertsOnce (Responds rd), [Attempt 1])
      \<and> postAlertsOnce (Responds rd) \<noteq> None \<and> \<not> shouldRetry (postAlertsOnce (Responds rd))"
    if a: "exchangeAt w 1 = Responds rd \<and> StatusCode rd = 400 \<and> ReadErr rd = None"
  proof -
    from a have f: "postAlertsOnce (Responds rd)
        = Some (wrap2 (leaf ErrUpstreamNon2xx)
         (leaf (StatusError 400
            (if TrimSpace (take maxErrorBodyBytes (Body rd)) = [] then Status rd
             else TrimSpace (take maxErrorBodyBytes (Body rd))))))"
      using postAlertsOnce_non2xx [of rd] by simp
    then have n: "\<not> shouldRetry (postAlertsOnce (Responds rd))"
      by (simp only: shouldRetry_status) simp
    from f obtain e where e: "postAlertsOnce (Responds rd) = Some e" by blast
    with a n u have "PostAlerts (Some ?c) w = (postAlertsOnce (Responds rd), [Attempt 1])"
      using attemptLoop_final [of 1 3 w e ?c] by (simp add: P)
    with e n show ?thesis by simp
  qed
  from first second show ?thesis
    by (simp add: attemptsMade_def)
qed

text \<open>The theorem at the two upstreams of \<^verbatim>\<open>retry_test.go\<close>.\<close>

theorem PostAlerts_retry_budget_witness:
  "PostAlerts (Some (New ''http://127.0.0.1:9093'' (2 * second))) upstreamFailsTwice
     = (None, [Attempt 1, Sleep 1 (200 * millisecond),
               Attempt 2, Sleep 2 (400 * millisecond), Attempt 3])
   \<and> attemptsMade (snd (PostAlerts (Some (New ''http://127.0.0.1:9093'' (2 * second)))
        upstreamFailsTwice)) = 3
   \<and> PostAlerts (Some (New ''http://127.0.0.1:9093'' (2 * second))) upstreamBadRequest
     = (Some (wrap2 (leaf ErrUpstreamNon2xx) (leaf (StatusError 400 ''bad request''))),
        [Attempt 1])
   \<and> attemptsMade (snd (PostAlerts (Some (New ''http://127.0.0.1:9093'' (2 * second)))
        upstreamBadRequest)) = 1"
proof -
  have h1: "\<forall>n. ctxErrAfter upstreamFailsTwice n = None
              \<and> ctxDoneDuring upstreamFailsTwice n = None"
    by (simp add: upstreamFailsTwice_def)
  have h2: "\<forall>n. ctxErrAfter upstreamBadRequest n = None
              \<and> ctxDoneDuring upstreamBadRequest n = None"
    by (simp add: upstreamBadRequest_def)
  have t: "TrimSpace ''bad request\<newline>'' = ''bad request''"
    by code_simp
  have b: "postAlertsOnce (Responds \<lparr>StatusCode = 400, Status = ''400 Bad Request'',
                Body = ''bad request\<newline>'', ReadErr = None\<rparr>)
           = Some (wrap2 (leaf ErrUpstreamNon2xx) (leaf (StatusError 400 ''bad request'')))"
    by (simp add: postAlertsOnce_non2xx maxErrorBodyBytes_def t)
  from PostAlerts_retry_budget [OF h1,
      where ra = "\<lparr>StatusCode = 500, Status = ''500 Internal Server Error'',
                Body = ''boom\<newline>'', ReadErr = None\<rparr>"
        and rb = "\<lparr>StatusCode = 500, Status = ''500 Internal Server Error'',
                Body = ''boom\<newline>'', ReadErr = None\<rparr>"
        and rc = "\<lparr>StatusCode = 200, Status = ''200 OK'', Body = [], ReadErr = None\<rparr>"
        and url = "''http://127.0.0.1:9093''" and timeout = "2 * second"]
  have 1: "PostAlerts (Some (New ''http://127.0.0.1:9093'' (2 * second))) upstreamFailsTwice
             = (None, [Attempt 1, Sleep 1 (200 * millisecond),
                       Attempt 2, Sleep 2 (400 * millisecond), Attempt 3])
           \<and> attemptsMade (snd (PostAlerts (Some (New ''http://127.0.0.1:9093'' (2 * second)))
                upstreamFailsTwice)) = 3"
    by (simp add: upstreamFailsTwice_def attemptsMade_def)
  from PostAlerts_retry_budget [OF h2,
      where rd = "\<lparr>StatusCode = 400, Status = ''400 Bad Request'',
                Body = ''bad request\<newline>'', ReadErr = None\<rparr>"
        and url = "''http://127.0.0.1:9093''" and timeout = "2 * second"]
  have 2: "PostAlerts (Some (New ''http://127.0.0.1:9093'' (2 * second))) upstreamBadRequest
             = (Some (wrap2 (leaf ErrUpstreamNon2xx) (leaf (StatusError 400 ''bad request''))),
                [Attempt 1])
           \<and> attemptsMade (snd (PostAlerts (Some (New ''http://127.0.0.1:9093'' (2 * second)))
                upstreamBadRequest)) = 1"
    by (simp add: upstreamBadRequest_def b attemptsMade_def)
  from 1 2 show ?thesis by blast
qed

section \<open>Cancellation: proofs\<close>

text \<open>
  What holds of the trace of the loop started at attempt \<open>a\<close>: its events carry numbers from
  \<open>a\<close> on; an attempt that fails with the context done right after it is the last event;
  and so is a sleep during which the context is done.
\<close>

lemma attemptLoop_trace:
  "(\<forall>m. Attempt m \<in> set (snd (attemptLoop client w attempts a)) \<longrightarrow> a \<le> m)
   \<and> (\<forall>m d. Sleep m d \<in> set (snd (attemptLoop client w attempts a)) \<longrightarrow> a \<le> m)
   \<and> (\<forall>n e c. Attempt n \<in> set (snd (attemptLoop client w attempts a))
          \<and> postAlertsOnce (exchangeAt w n) = Some e \<and> ctxErrAfter w n = Some c \<longrightarrow>
          fst (attemptLoop client w attempts a) = Some (wrap2 (leaf ErrDoRequest) (ctxError c))
          \<and> last (snd (attemptLoop client w attempts a)) = Attempt n
          \<and> (\<forall>m. Attempt m \<in> set (snd (attemptLoop client w attempts a)) \<longrightarrow> m \<le> n))
   \<and> (\<forall>n d c. Sleep n d \<in> set (snd (attemptLoop client w attempts a))
          \<and> ctxDoneDuring w n = Some c \<longrightarrow>
          fst (attemptLoop client w attempts a)
            = Some (wrap2 (leaf ErrDoRequest) (wrap2 (leaf ErrContextDone) (ctxError c)))
          \<and> last (snd (attemptLoop client w attempts a)) = Sleep n d
          \<and> (\<forall>m. Attempt m \<in> set (snd (attemptLoop client w attempts a)) \<longrightarrow> m \<le> n))"
proof (induction client w attempts a rule: attemptLoop.induct)
  case (1 client w attempts attempt)
  let ?b = "computeBackoff attempt (retryInitial client) (retryMaxBackoff client)"
  show ?case
  proof (cases "attempt \<le> attempts")
    case False
    then have "attemptLoop client w attempts attempt = (Some (leaf ErrDoRequest), [])"
      by (subst attemptLoop.simps) simp
    then show ?thesis by simp
  next
    case le: True
    show ?thesis
    proof (cases "postAlertsOnce (exchangeAt w attempt)")
      case None
      with le have "attemptLoop client w attempts attempt = (None, [Attempt attempt])"
        by (rule attemptLoop_success)
      with None show ?thesis by simp
    next
      case (Some err)
      show ?thesis
      proof (cases "ctxErrAfter w attempt")
        case ctx: (Some c)
        from le Some ctx have "attemptLoop client w attempts attempt
            = (Some (wrap2 (leaf ErrDoRequest) (ctxError c)), [Attempt attempt])"
          by (rule attemptLoop_ctxErr)
        with ctx show ?thesis by simp
      next
        case noctx: None
        show ?thesis
        proof (cases "\<not> shouldRetry (Some err) \<or> attempt = attempts")
          case True
          with le Some noctx
          have "attemptLoop client w attempts attempt = (Some err, [Attempt attempt])"
            by (intro attemptLoop_final)
          with noctx show ?thesis by simp
        next
          case retry: False
          with le have lt: "attempt < attempts" and sr: "shouldRetry (Some err)"
            by simp_all
          show ?thesis
          proof (cases "ctxDoneDuring w attempt")
            case intr: (Some c)
            from lt Some noctx sr intr have "attemptLoop client w attempts attempt
              = (Some (wrap2 (leaf ErrDoRequest) (wrap2 (leaf ErrContextDone) (ctxError c))),
                 [Attempt attempt, Sleep attempt ?b])"
              by (rule attemptLoop_sleepErr)
            with noctx intr show ?thesis by simp
          next
            case slept: None
            let ?rest = "attemptLoop client w attempts (attempt + 1)"
            have sl: "sleepWithContext w attempt ?b = None"
              using slept by (simp add: sleepWithContext_def)
            have eq: "attemptLoop client w attempts attempt
               = (fst ?rest, Attempt attempt # Sleep attempt ?b # snd ?rest)"
              using lt Some noctx sr slept by (rule attemptLoop_retry)
            note IH = "1.IH" [OF le Some noctx retry refl sl]
            from IH have ge: "\<And>m. Attempt m \<in> set (snd ?rest) \<Longrightarrow> attempt + 1 \<le> m"
              and ges: "\<And>m d. Sleep m d \<in> set (snd ?rest) \<Longrightarrow> attempt + 1 \<le> m"
              by blast+
            have ne: "snd ?rest \<noteq> []"
              using lt
              by (subst attemptLoop.simps) (auto split: option.splits prod.splits simp: Let_def)
            show ?thesis
              unfolding eq using IH noctx slept ge ges ne
              by (auto simp del: One_nat_def; fastforce)
          qed
        qed
      qed
    qed
  qed
qed

lemma PostAlerts_cases:
  "PostAlerts cl w = (Some (leaf ErrClientNil), [])
   \<or> (\<exists>client. PostAlerts cl w = attemptLoop client w (max (retryMaxAttempts client) 1) 1)"
  by (auto simp: PostAlerts_def Let_def split: option.splits)

lemma ctx_errors_classified:
  "errorsIs (wrap2 (leaf ErrDoRequest) (ctxError c))
     (case c of CtxCanceled \<Rightarrow> Canceled | CtxDeadlineExceeded \<Rightarrow> DeadlineExceeded)"
  "\<not> shouldRetry (Some (wrap2 (leaf ErrDoRequest) (ctxError c)))"
  "errorsIs (wrap2 (leaf ErrDoRequest) (wrap2 (leaf ErrContextDone) (ctxError c)))
     (case c of CtxCanceled \<Rightarrow> Canceled | CtxDeadlineExceeded \<Rightarrow> DeadlineExceeded)"
  "errorsIs (wrap2 (leaf ErrDoRequest) (wrap2 (leaf ErrContextDone) (ctxError c))) ErrContextDone"
  "\<not> shouldRetry (Some (wrap2 (leaf ErrDoRequest) (wrap2 (leaf ErrContextDone) (ctxError c))))"
  by (cases c;
      simp add: shouldRetry_def errorsIs_kinds ctxError_def kinds_wrap2_leaf
        kinds_wrap2_wrap2_leaf)+

text \<open>
  Claim C6. \<^verbatim>\<open>PostAlerts\<close> looks at the caller's context at two places: \<^verbatim>\<open>ctx.Err()\<close> after
  an attempt that failed, and \<^verbatim>\<open>ctx.Done()\<close> in the \<^verbatim>\<open>select\<close> of the backoff sleep. For every
  client and all surroundings: if an attempt that is made fails and the context is done
  right after it, that attempt is the last event of the call, no attempt of a higher number
  is made, and the call returns the do-request sentinel wrapping the context's error; if
  the context is done during a backoff sleep that is started, that sleep is the last event
  of the call, no attempt of a higher number is made, and the call returns the do-request
  sentinel wrapping the context-done sentinel wrapping the context's error. Both errors
  match the context's error under \<^verbatim>\<open>errors.Is\<close> and are not retryable.
\<close>

theorem PostAlerts_context_done:
  "(\<forall>n e c. Attempt n \<in> set (snd (PostAlerts cl w))
        \<and> postAlertsOnce (exchangeAt w n) = Some e \<and> ctxErrAfter w n = Some c \<longrightarrow>
        fst (PostAlerts cl w) = Some (wrap2 (leaf ErrDoRequest) (ctxError c))
        \<and> last (snd (PostAlerts cl w)) = Attempt n
        \<and> (\<forall>m. Attempt m \<in> set (snd (PostAlerts cl w)) \<longrightarrow> m \<le> n))
   \<and> (\<forall>n d c. Sleep n d \<in> set (snd (PostAlerts cl w)) \<and> ctxDoneDuring w n = Some c \<longrightarrow>
        fst (PostAlerts cl w)
          = Some (wrap2 (leaf ErrDoRequest) (wrap2 (leaf ErrContextDone) (ctxError c)))
        \<and> last (snd (PostAlerts cl w)) = Sleep n d
        \<and> (\<forall>m. Attempt m \<in> set (snd (PostAlerts cl w)) \<longrightarrow> m \<le> n))
   \<and> (\<forall>c. errorsIs (wrap2 (leaf ErrDoRequest) (ctxError c))
             (case c of CtxCanceled \<Rightarrow> Canceled | CtxDeadlineExceeded \<Rightarrow> DeadlineExceeded)
        \<and> \<not> shouldRetry (Some (wrap2 (leaf ErrDoRequest) (ctxError c)))
        \<and> errorsIs (wrap2 (leaf ErrDoRequest) (wrap2 (leaf ErrContextDone) (ctxError c)))
             (case c of CtxCanceled \<Rightarrow> Canceled | CtxDeadlineExceeded \<Rightarrow> DeadlineExceeded)
        \<and> errorsIs (wrap2 (leaf ErrDoRequest) (wrap2 (leaf ErrContextDone) (ctxError c)))
             ErrContextDone
        \<and> \<not> shouldRetry
             (Some (wrap2 (leaf ErrDoRequest) (wrap2 (leaf ErrContextDone) (ctxError c)))))"
proof -
  from PostAlerts_cases [of cl w]
  have main: "(\<forall>n e c. Attempt n \<in> set (snd (PostAlerts cl w))
        \<and> postAlertsOnce (exchangeAt w n) = Some e \<and> ctxErrAfter w n = Some c \<longrightarrow>
        fst (PostAlerts cl w) = Some (wrap2 (leaf ErrDoRequest) (ctxError c))
        \<and> last (snd (PostAlerts cl w)) = Attempt n
        \<and> (\<forall>m. Attempt m \<in> set (snd (PostAlerts cl w)) \<longrightarrow> m \<le> n))
   \<and> (\<forall>n d c. Sleep n d \<in> set (snd (PostAlerts cl w)) \<and> ctxDoneDuring w n = Some c \<longrightarrow>
        fst (PostAlerts cl w)
          = Some (wrap2 (leaf ErrDoRequest) (wrap2 (leaf ErrContextDone) (ctxError c)))
        \<and> last (snd (PostAlerts cl w)) = Sleep n d
        \<and> (\<forall>m. Attempt m \<in> set (snd (PostAlerts cl w)) \<longrightarrow> m \<le> n))"
  proof (elim disjE exE)
    assume "PostAlerts cl w = (Some (leaf ErrClientNil), [])"
    then show ?thesis by simp
  next
    fix client
    assume eq: "PostAlerts cl w = attemptLoop client w (max (retryMaxAttempts client) 1) 1"
    show ?thesis
      unfolding eq
      using attemptLoop_trace [of client w "max (retryMaxAttempts client) 1" 1]
      by (intro conjI) (elim conjE, assumption)+
  qed
  have classified: "\<forall>c. errorsIs (wrap2 (leaf ErrDoRequest) (ctxError c))
             (case c of CtxCanceled \<Rightarrow> Canceled | CtxDeadlineExceeded \<Rightarrow> DeadlineExceeded)
        \<and> \<not> shouldRetry (Some (wrap2 (leaf ErrDoRequest) (ctxError c)))
        \<and> errorsIs (wrap2 (leaf ErrDoRequest) (wrap2 (leaf ErrContextDone) (ctxError c)))
             (case c of CtxCanceled \<Rightarrow> Canceled | CtxDeadlineExceeded \<Rightarrow> DeadlineExceeded)
        \<and> errorsIs (wrap2 (leaf ErrDoRequest) (wrap2 (leaf ErrContextDone) (ctxError c)))
             ErrContextDone
        \<and> \<not> shouldRetry
             (Some (wrap2 (leaf ErrDoRequest) (wrap2 (leaf ErrContextDone) (ctxError c))))"
    by (intro allI conjI ctx_errors_classified)
  show ?thesis
    by (rule conjI [OF main [THEN conjunct1] conjI [OF main [THEN conjunct2] classified]])
qed

text \<open>
  The theorem at a caller that cancels during the first attempt, and at a caller whose
  deadline passes during the first backoff sleep: one attempt is made in either case.
\<close>

theorem PostAlerts_context_done_witness:
  "PostAlerts (Some (New ''http://127.0.0.1:9093'' (2 * second))) canceledDuringAttempt
     = (Some (wrap2 (leaf ErrDoRequest) (leaf Canceled)), [Attempt 1])
   \<and> PostAlerts (Some (New ''http://127.0.0.1:9093'' (2 * second))) deadlineDuringSleep
     = (Some (wrap2 (leaf ErrDoRequest) (wrap2 (leaf ErrContextDone) (leaf DeadlineExceeded))),
        [Attempt 1, Sleep 1 (200 * millisecond)])"
proof -
  let ?c = "New ''http://127.0.0.1:9093'' (2 * second)"
  let ?e = "wrap2 (leaf ErrUpstreamNon2xx)
              (leaf (StatusError 503 ''503 Service Unavailable''))"
  have ri: "retryInitial ?c = defaultRetryInitial" "retryMaxBackoff ?c = defaultRetryMaxBackoff"
    by (simp_all add: New_def)
  have x: "postAlertsOnce (Responds \<lparr>StatusCode = 503, Status = ''503 Service Unavailable'',
                Body = [], ReadErr = None\<rparr>) = Some ?e"
    by (simp add: postAlertsOnce_non2xx TrimSpace_Nil)
  have xa: "postAlertsOnce (exchangeAt canceledDuringAttempt 1) = Some ?e"
    using x by (simp add: canceledDuringAttempt_def)
  have xb: "postAlertsOnce (exchangeAt deadlineDuringSleep 1) = Some ?e"
    using x by (simp add: deadlineDuringSleep_def)
  have ca: "ctxErrAfter canceledDuringAttempt 1 = Some CtxCanceled"
    by (simp add: canceledDuringAttempt_def)
  have cb: "ctxErrAfter deadlineDuringSleep 1 = None"
    "ctxDoneDuring deadlineDuringSleep 1 = Some CtxDeadlineExceeded"
    by (simp_all add: deadlineDuringSleep_def)
  have ea: "snd (PostAlerts (Some ?c) canceledDuringAttempt) = [Attempt 1]"
    using attemptLoop_ctxErr [of 1 3 canceledDuringAttempt ?e CtxCanceled ?c] xa ca
    by (simp add: PostAlerts_New)
  have eb: "snd (PostAlerts (Some ?c) deadlineDuringSleep)
              = [Attempt 1, Sleep 1 (200 * millisecond)]"
    using attemptLoop_sleepErr [of 1 3 deadlineDuringSleep ?e CtxDeadlineExceeded ?c] xb cb
    by (simp add: PostAlerts_New shouldRetry_status ri backoff_defaults)
  have "fst (PostAlerts (Some ?c) canceledDuringAttempt)
          = Some (wrap2 (leaf ErrDoRequest) (ctxError CtxCanceled))"
    using PostAlerts_context_done [of "Some ?c" canceledDuringAttempt] ea xa ca
    by (elim conjE allE [of _ 1] allE [of _ ?e] allE [of _ CtxCanceled]) simp
  with ea have a: "PostAlerts (Some ?c) canceledDuringAttempt
     = (Some (wrap2 (leaf ErrDoRequest) (leaf Canceled)), [Attempt 1])"
    by (simp add: prod_eq_iff ctxError_def)
  have "fst (PostAlerts (Some ?c) deadlineDuringSleep)
          = Some (wrap2 (leaf ErrDoRequest) (wrap2 (leaf ErrContextDone) (ctxError CtxDeadlineExceeded)))"
    using PostAlerts_context_done [of "Some ?c" deadlineDuringSleep] eb cb
    by (elim conjE allE [of _ 1] allE [of _ "200 * millisecond"] allE [of _ CtxDeadlineExceeded])
      simp
  with eb have b: "PostAlerts (Some ?c) deadlineDuringSleep
     = (Some (wrap2 (leaf ErrDoRequest) (wrap2 (leaf ErrContextDone) (leaf DeadlineExceeded))),
        [Attempt 1, Sleep 1 (200 * millisecond)])"
    by (simp add: prod_eq_iff ctxError_def)
  from a b show ?thesis by blast
qed

end
